theory Spec2Isabelle
  imports Main "HOL-Library.Word"
begin

section \<open>NVDLA queue and task management (nvdla\_queue.c)\<close>

text \<open>
  A shallow embedding of \<^verbatim>\<open>drivers/video/tegra/host/nvdla/nvdla_queue.c\<close>.
  Kernel objects are records, the in-flight list is a list of tasks (oldest first),
  and every call to a collaborator outside the file (pinning, syncpoints, engine
  commands, power references, allocators) is appended to a trace, with its result
  supplied by an environment record.
\<close>

type_synonym u8 = "8 word"
type_synonym u16 = "16 word"
type_synonym u32 = "32 word"
type_synonym u64 = "64 word"

subsection \<open>Errors\<close>

text \<open>
  The functions of the file return a C \<^verbatim>\<open>int\<close>: 0 or an error code. A result is
  an \<open>error option\<close>, \<open>None\<close> being 0. \<open>Errno\<close> stands for any other non-zero code
  a collaborator hands back; \<open>Oops\<close> is the dereference of a \<^verbatim>\<open>NULL\<close>
  \<^verbatim>\<open>task_desc\<close> pointer, which the C code does not guard.
\<close>

datatype error = EINVAL | ENOMEM | DLA_ERR_PROCESSOR_BUSY | Errno int | Oops

subsection \<open>Data model\<close>

datatype fence_type =
    NVDLA_FENCE_TYPE_SYNCPT
  | NVDLA_FENCE_TYPE_SYNC_FD
  | NVDLA_FENCE_TYPE_SEMAPHORE
  | NVDLA_FENCE_TYPE_TS_SEMAPHORE
  | NVDLA_FENCE_TYPE_OTHER u32

record nvdla_fence =
  type :: fence_type
  syncpoint_index :: u32
  syncpoint_value :: u32
  sync_fd :: u32
  sem_handle :: u32
  sem_offset :: u32
  sem_val :: u32

record nvdla_status_notify =
  handle :: u32
  offset :: u32
  status :: u16

record nvdla_mem_handle =
  mem_handle :: u32
  mem_offset :: u32

text \<open>
  The action encoder writes packed structs through a byte cursor. A written struct is
  a cell; a cursor is the list of cells written since the start of its list.
\<close>

datatype opcode =
    PREACTION_TERMINATE
  | PREACTION_SEM_GE
  | PREACTION_TASK_STATUS
  | POSTACTION_TERMINATE
  | POSTACTION_SEM
  | POSTACTION_TS_SEM
  | POSTACTION_TASK_STATUS

datatype cell =
    dla_action_opcode opcode
  | dla_action_semaphore u64 u32
  | dla_action_task_status u64 u16

text \<open>
  The memory of a descriptor slot is addressed by byte offset from the start of the
  descriptor. A byte that the encoder wrote is byte \<open>k\<close> of one of its structs; an
  offset nothing was written to holds \<open>None\<close>. Both action lists are written into this
  one memory, so a list that outgrows its area runs into what follows it.
\<close>

datatype mem_byte = Byte cell nat

type_synonym slot_mem = "nat \<Rightarrow> mem_byte option"

definition write_bytes :: "nat \<Rightarrow> mem_byte list \<Rightarrow> slot_mem \<Rightarrow> slot_mem" where
  "write_bytes off bs m =
     (\<lambda>a. if off \<le> a \<and> a < off + length bs then Some (bs ! (a - off)) else m a)"

definition read_bytes :: "slot_mem \<Rightarrow> nat \<Rightarrow> nat \<Rightarrow> mem_byte option list" where
  "read_bytes m off n = map (\<lambda>k. m (off + k)) [0..<n]"

record dla_action_list =
  al_offset :: u16
  al_size :: nat

text \<open>
  The header fields of the descriptor and the two list headers, which lie at the offsets
  \<open>preactions\<close> and \<open>postactions\<close>, are fields of the record; \<open>desc_mem\<close> is the
  memory of the slot in which the lists themselves are written.
\<close>

record dla_task_descriptor =
  version :: nat
  engine_id :: nat
  desc_size :: nat
  sequence :: u32
  num_preactions :: nat
  num_postactions :: nat
  queue_id :: u32
  preactions :: nat
  postactions :: nat
  desc_num_addresses :: nat
  desc_address_list :: u64
  desc_next :: u64
  preaction_list :: dla_action_list
  postaction_list :: dla_action_list
  desc_mem :: slot_mem

text \<open>
  \<open>task_p\<close> is the address of the task object. The fence and status arrays are lists
  with their counts beside them, as in the C struct; the loops read the first
  \<open>num_...\<close> entries. A list stands for the whole C array, which has at least one
  slot, so a task whose \<open>postfences\<close> is empty stands for no C object.
  \<^verbatim>\<open>memory_handles\<close> and \<^verbatim>\<open>task_desc\<close> are pointers, \<open>None\<close> being \<^verbatim>\<open>NULL\<close>.
\<close>

record nvdla_task =
  task_p :: nat
  ref :: int
  prefences :: "nvdla_fence list"
  postfences :: "nvdla_fence list"
  in_task_status :: "nvdla_status_notify list"
  out_task_status :: "nvdla_status_notify list"
  num_prefences :: nat
  num_postfences :: nat
  num_in_task_status :: nat
  num_out_task_status :: nat
  num_addresses :: nat
  address_list :: nvdla_mem_handle
  memory_handles :: "u32 list option"
  num_handles :: nat
  fence :: u32
  task_desc :: "dla_task_descriptor option"
  task_desc_pa :: u64
  pool_index :: nat

text \<open>Calls to collaborators, in the order the code makes them.\<close>

datatype dla_cmd = DLA_CMD_SUBMIT_TASK | DLA_CMD_QUEUE_FLUSH

datatype event =
    call_nvhost_buffer_submit_pin "u32 list"
  | call_nvhost_buffer_submit_unpin "u32 list"
  | call_nvdla_send_cmd dla_cmd u32
  | call_mdelay nat
  | call_nvhost_module_busy
  | call_nvhost_module_idle
  | call_nvhost_module_idle_mult int
  | call_nvhost_intr_register_notifier u32 u32
  | call_nvhost_syncpt_get_ref u32
  | call_nvhost_syncpt_put_ref u32
  | call_syncpt_op_reset u32
  | call_nvhost_queue_get
  | call_nvhost_queue_put
  | call_nvhost_queue_alloc_task_memory
  | call_nvhost_queue_free_task_memory nat
  | call_kfree_memory_handles
  | call_kfree_task nat
  | call_list_del nat
  | call_dma_buf_get u32
  | call_dma_buf_vmap
  | call_dma_buf_vunmap
  | call_dma_buf_put
  | write_dma_addr_list "u64 list"

text \<open>
  The syncpoint of the queue: \<open>min_val\<close> is the counter's current value,
  \<open>max_val\<close> the maximum issued so far. Both are 32-bit (\<^verbatim>\<open>u32 fence\<close>).
\<close>

record nvhost_syncpt =
  min_val :: u32
  max_val :: u32

record nvhost_queue =
  id_q :: u32
  syncpt_id :: u32
  queue_sequence :: u32
  tasklist :: "nvdla_task list"

record system =
  queue :: nvhost_queue
  sp :: nvhost_syncpt
  trace :: "event list"

text \<open>The results the collaborators give back during one operation.\<close>

record env =
  nvhost_module_busy_ret :: "error option"
  nvhost_intr_register_notifier_ret :: "error option"
  nvdla_send_cmd_ret :: "nat \<Rightarrow> error option"
  pin_ret :: "u32 \<Rightarrow> error + u64"
  nvhost_queue_alloc_task_memory_ret :: "error + (dla_task_descriptor \<times> u64 \<times> nat)"
  kcalloc_handles_ok :: bool
  kcalloc_dma_addr_ok :: bool
  kcalloc_dma_size_ok :: bool
  dma_buf_get_ret :: "error option"
  dma_buf_vmap_ok :: bool
  addresses_buf :: "nat \<Rightarrow> nvdla_mem_handle"
  nvhost_sync_fdget_ret :: "u32 \<Rightarrow> (u32 \<times> u32) list option"
  nvhost_syncpt_is_valid_hw_pt_ret :: "u32 \<Rightarrow> bool"
  nvhost_syncpt_address_ret :: "u32 \<Rightarrow> u64"

definition log :: "event list \<Rightarrow> system \<Rightarrow> system" where
  "log es s = s\<lparr>trace := trace s @ es\<rparr>"

subsection \<open>The syncpoint collaborator\<close>

text \<open>
  Modelled from the spec: \<^verbatim>\<open>nvhost_syncpt_incr_max\<close> is not in the source tree.
  The spec's \<open>counter_increment_max(counter_id, n) -> new_target\<close> adds \<open>n\<close> to the
  issued maximum and returns the new maximum. The source keeps fence targets in
  \<^verbatim>\<open>u32\<close>, so the sum is taken in that width. The spec's counter only increases;
  the sum does so as long as it stays within 32 bits, and the properties about the
  order of the targets are stated for that range.
\<close>

definition nvhost_syncpt_incr_max :: "nvhost_syncpt \<Rightarrow> u32 \<Rightarrow> u32 \<times> nvhost_syncpt" where
  "nvhost_syncpt_incr_max p incrs = (max_val p + incrs, p\<lparr>max_val := max_val p + incrs\<rparr>)"

text \<open>
  Modelled from the spec: \<^verbatim>\<open>nvhost_syncpt_is_expired\<close> is not in the source tree.
  The spec's sweep compares the counter's current value against the fence target:
  the target is reached when the current value is at least the target.
\<close>

definition nvhost_syncpt_is_expired :: "nvhost_syncpt \<Rightarrow> u32 \<Rightarrow> bool" where
  "nvhost_syncpt_is_expired p thresh = (thresh \<le> min_val p)"

text \<open>
  \<^verbatim>\<open>nvdla_task_syncpt_reset\<close>: \<^verbatim>\<open>atomic_set(&syncpt->min_val[id], fence)\<close>, then the
  hardware register is written from \<open>min_val\<close> and read back into it, so the current
  value ends as \<open>fence\<close>. The issued maximum is not written.
\<close>

definition nvdla_task_syncpt_reset :: "system \<Rightarrow> u32 \<Rightarrow> u32 \<Rightarrow> system" where
  "nvdla_task_syncpt_reset s i fence' =
     log [call_syncpt_op_reset i] (s\<lparr>sp := (sp s)\<lparr>min_val := fence'\<rparr>\<rparr>)"

subsection \<open>Task lifecycle\<close>

definition nvdla_release_task_desc_mem :: "system \<Rightarrow> nvdla_task \<Rightarrow> system \<times> nvdla_task" where
  "nvdla_release_task_desc_mem s task =
     (log [call_nvhost_queue_free_task_memory (pool_index task)] s,
      task\<lparr>task_desc := None, task_desc_pa := 0, pool_index := 0\<rparr>)"

text \<open>\<^verbatim>\<open>task_free\<close>: the kref release callback. The task object is gone afterwards.\<close>

definition task_free :: "system \<Rightarrow> nvdla_task \<Rightarrow> system" where
  "task_free s task =
     (let (s1, task1) = nvdla_release_task_desc_mem s task;
          s2 = (if memory_handles task1 \<noteq> None then log [call_kfree_memory_handles] s1 else s1)
      in log [call_kfree_task (task_p task1)] s2)"

text \<open>
  \<^verbatim>\<open>nvdla_task_put\<close>: the second component is the task with its count decremented,
  or \<open>None\<close> when the count reached zero and the object was freed.
\<close>

definition nvdla_task_put :: "system \<Rightarrow> nvdla_task \<Rightarrow> system \<times> nvdla_task option" where
  "nvdla_task_put s task =
     (let s1 = log [call_nvhost_queue_put] s;
          task1 = task\<lparr>ref := ref task - 1\<rparr>
      in if ref task1 = 0 then (task_free s1 task1, None) else (s1, Some task1))"

definition nvdla_task_get :: "system \<Rightarrow> nvdla_task \<Rightarrow> system \<times> nvdla_task" where
  "nvdla_task_get s task = (log [call_nvhost_queue_get] s, task\<lparr>ref := ref task + 1\<rparr>)"

fun unpin_prefences :: "nvdla_fence list \<Rightarrow> event list" where
  "unpin_prefences [] = []"
| "unpin_prefences (f # fs) =
     (if type f = NVDLA_FENCE_TYPE_SEMAPHORE \<and> sem_handle f \<noteq> 0
      then call_nvhost_buffer_submit_unpin [sem_handle f] # unpin_prefences fs
      else unpin_prefences fs)"

fun unpin_task_status :: "nvdla_status_notify list \<Rightarrow> event list" where
  "unpin_task_status [] = []"
| "unpin_task_status (n # ns) =
     (if handle n \<noteq> 0
      then call_nvhost_buffer_submit_unpin [handle n] # unpin_task_status ns
      else unpin_task_status ns)"

fun unpin_postfences :: "nvdla_fence list \<Rightarrow> event list" where
  "unpin_postfences [] = []"
| "unpin_postfences (f # fs) =
     (if (type f = NVDLA_FENCE_TYPE_SEMAPHORE \<or> type f = NVDLA_FENCE_TYPE_TS_SEMAPHORE)
         \<and> sem_handle f \<noteq> 0
      then call_nvhost_buffer_submit_unpin [sem_handle f] # unpin_postfences fs
      else unpin_postfences fs)"

text \<open>
  The unpin calls of \<^verbatim>\<open>nvdla_task_free_locked\<close>, in order. \<^verbatim>\<open>task->memory_handles\<close>
  is passed with \<^verbatim>\<open>num_handles\<close>; a \<^verbatim>\<open>NULL\<close> array is passed as it is (no handles
  to read in the model).
\<close>

definition task_unpins :: "nvdla_task \<Rightarrow> event list" where
  "task_unpins task =
     (if num_handles task \<noteq> 0
      then [call_nvhost_buffer_submit_unpin
              (take (num_handles task) (case memory_handles task of None \<Rightarrow> [] | Some hs \<Rightarrow> hs))]
      else [])
     @ unpin_prefences (take (num_prefences task) (prefences task))
     @ unpin_task_status (take (num_in_task_status task) (in_task_status task))
     @ unpin_postfences (take (num_postfences task) (postfences task))
     @ unpin_task_status (take (num_out_task_status task) (out_task_status task))"

text \<open>
  \<^verbatim>\<open>nvdla_task_free_locked\<close>: \<^verbatim>\<open>list_del\<close> unlinks the node of this task; nodes are
  told apart by the address of their task, \<open>task_p\<close>.
\<close>

definition nvdla_task_free_locked :: "system \<Rightarrow> nvdla_task \<Rightarrow> system" where
  "nvdla_task_free_locked s task =
     (let s1 = log [call_nvhost_syncpt_put_ref (syncpt_id (queue s))] s;
          s2 = log (task_unpins task) s1;
          s3 = log [call_list_del (task_p task)]
                 (s2\<lparr>queue := (queue s2)\<lparr>tasklist :=
                        filter (\<lambda>t. task_p t \<noteq> task_p task) (tasklist (queue s2))\<rparr>\<rparr>)
      in fst (nvdla_task_put s3 task))"

subsection \<open>Completion sweep\<close>

text \<open>
  \<^verbatim>\<open>list_for_each_entry_safe\<close> visits every node that was linked when the walk
  started; the walk does not stop at the first task that is not complete.
\<close>

fun queue_update_loop :: "nvdla_task list \<Rightarrow> system \<Rightarrow> system" where
  "queue_update_loop [] s = s"
| "queue_update_loop (task # rest) s =
     queue_update_loop rest
       (if nvhost_syncpt_is_expired (sp s) (fence task)
        then nvdla_task_free_locked s task else s)"

definition nvdla_queue_update :: "system \<Rightarrow> int \<Rightarrow> system" where
  "nvdla_queue_update s nr_completed =
     log [call_nvhost_module_idle_mult nr_completed]
       (queue_update_loop (tasklist (queue s)) s)"

subsection \<open>Submit\<close>

text \<open>
  \<^verbatim>\<open>method_data = (task->task_desc_pa >> 8) & 0xffffffff\<close>. The method id is
  \<^verbatim>\<open>DLA_CMD_SUBMIT_TASK\<close> with the two interrupt bits, constant for every submit.
\<close>

definition submit_method_data :: "nvdla_task \<Rightarrow> u32" where
  "submit_method_data task = ucast (drop_bit 8 (task_desc_pa task))"

text \<open>
  \<^verbatim>\<open>last_task->task_desc->next = task->task_desc_pa\<close> on the last node of a non-empty
  list: \<open>None\<close> when that task has no descriptor (a \<^verbatim>\<open>NULL\<close> dereference).
\<close>

definition chain_last :: "nvdla_task list \<Rightarrow> u64 \<Rightarrow> nvdla_task list option" where
  "chain_last ts pa =
     (if ts = [] then Some []
      else case task_desc (last ts) of
             None \<Rightarrow> None
           | Some d \<Rightarrow> Some (butlast ts @ [(last ts)\<lparr>task_desc := Some (d\<lparr>desc_next := pa\<rparr>)\<rparr>]))"

text \<open>
  The task is linked before its fence is assigned, so the fields written later
  (\<open>fence\<close>, \<open>postfences[0]\<close>) are those of the node at the tail. \<open>set_tail\<close> writes
  the task object back to that node.
\<close>

definition set_tail :: "system \<Rightarrow> nvdla_task \<Rightarrow> system" where
  "set_tail s task =
     s\<lparr>queue := (queue s)\<lparr>tasklist := butlast (tasklist (queue s)) @ [task]\<rparr>\<rparr>"

text \<open>
  \<^verbatim>\<open>task->postfences[0].syncpoint_index = ...; task->postfences[0].syncpoint_value = ...\<close>:
  the two fields of slot 0 are written, whatever \<open>num_postfences\<close> is. Only for an
  empty list, which stands for no C array, is there no slot to write.
\<close>

definition write_postfence0 :: "nvdla_fence list \<Rightarrow> u32 \<Rightarrow> u32 \<Rightarrow> nvdla_fence list" where
  "write_postfence0 fs i v =
     (case fs of
        [] \<Rightarrow> []
      | f0 # rest \<Rightarrow> f0\<lparr>syncpoint_index := i, syncpoint_value := v\<rparr> # rest)"

definition nvdla_queue_submit :: "env \<Rightarrow> system \<Rightarrow> nvdla_task \<Rightarrow> error option \<times> system" where
  "nvdla_queue_submit e s in_task =
     (let s0 = log [call_nvhost_module_busy] s in
      if nvhost_module_busy_ret e \<noteq> None then (Some EINVAL, s0)
      else
        let (s1, task1) = nvdla_task_get s0 in_task in
        case chain_last (tasklist (queue s1)) (task_desc_pa task1) of
          None \<Rightarrow> (Some Oops, s1)
        | Some ts \<Rightarrow>
            let s2 = s1\<lparr>queue := (queue s1)\<lparr>tasklist := ts @ [task1]\<rparr>\<rparr>;
                (f, p) = nvhost_syncpt_incr_max (sp s2) 1;
                task2 = task1\<lparr>fence := f\<rparr>;
                s3 = log [call_nvhost_syncpt_get_ref (syncpt_id (queue s2))]
                       (set_tail (s2\<lparr>sp := p\<rparr>) task2);
                s4 = log [call_nvhost_intr_register_notifier (syncpt_id (queue s3)) f] s3
            in
            case nvhost_intr_register_notifier_ret e of
              Some err \<Rightarrow> (Some err, s4)
            | None \<Rightarrow>
                let task3 = task2\<lparr>postfences :=
                              write_postfence0 (postfences task2) (syncpt_id (queue s4)) f\<rparr>;
                    s5 = log [call_nvdla_send_cmd DLA_CMD_SUBMIT_TASK (submit_method_data task3)]
                           (set_tail s4 task3)
                in
                case nvdla_send_cmd_ret e 0 of
                  Some err \<Rightarrow> (Some err, nvdla_task_syncpt_reset s5 (syncpt_id (queue s5)) f)
                | None \<Rightarrow> (None, s5))"

subsection \<open>Abort\<close>

text \<open>
  The flush loop: \<^verbatim>\<open>do { err = send; if (err == BUSY) mdelay; else break; } while (--retry)\<close>.
  \<open>k\<close> counts the commands already sent; the result is the last \<open>err\<close>, the value
  of \<open>retry\<close> after the loop, and the trace of the loop. The loop is entered with
  \<open>retry = 20\<close> and re-entered only while \<open>retry\<close> is not 0, so the equation
  for 0 is never reached from \<open>nvdla_queue_abort\<close>.
\<close>

definition NVDLA_QUEUE_ABORT_TIMEOUT :: nat where
  "NVDLA_QUEUE_ABORT_TIMEOUT = 10000"

definition NVDLA_QUEUE_ABORT_RETRY_PERIOD :: nat where
  "NVDLA_QUEUE_ABORT_RETRY_PERIOD = 500"

fun flush_loop :: "env \<Rightarrow> u32 \<Rightarrow> nat \<Rightarrow> nat \<Rightarrow> error option \<times> nat \<times> event list" where
  "flush_loop e qid k 0 = (nvdla_send_cmd_ret e k, 0, [call_nvdla_send_cmd DLA_CMD_QUEUE_FLUSH qid])"
| "flush_loop e qid k (Suc r) =
     (let err = nvdla_send_cmd_ret e k;
          sent = call_nvdla_send_cmd DLA_CMD_QUEUE_FLUSH qid
      in if err = Some DLA_ERR_PROCESSOR_BUSY
         then (if r = 0 then (err, 0, [sent, call_mdelay NVDLA_QUEUE_ABORT_RETRY_PERIOD])
               else (case flush_loop e qid (Suc k) r of
                       (err', r', es) \<Rightarrow>
                         (err', r', sent # call_mdelay NVDLA_QUEUE_ABORT_RETRY_PERIOD # es)))
         else (err, Suc r, [sent]))"

definition nvdla_queue_abort :: "env \<Rightarrow> system \<Rightarrow> error option \<times> system" where
  "nvdla_queue_abort e s =
     (if tasklist (queue s) = [] then (None, s)
      else
        let s0 = log [call_nvhost_module_busy] s in
        case nvhost_module_busy_ret e of
          Some err \<Rightarrow> (Some err, s0)
        | None \<Rightarrow>
            let (err, retry, es) =
                  flush_loop e (id_q (queue s0)) 0
                    (NVDLA_QUEUE_ABORT_TIMEOUT div NVDLA_QUEUE_ABORT_RETRY_PERIOD);
                s1 = log es s0
            in if retry = 0 \<or> err \<noteq> None
               then (err, log [call_nvhost_module_idle] s1)
               else
                 let s2 = (if tasklist (queue s1) \<noteq> []
                           then nvdla_task_syncpt_reset s1 (syncpt_id (queue s1))
                                  (fence (last (tasklist (queue s1))))
                           else s1)
                 in (err, log [call_nvhost_module_idle] s2))"

subsection \<open>Descriptor sizes\<close>

text \<open>
  The constants and struct sizes of \<^verbatim>\<open>nvdla.h\<close> and \<^verbatim>\<open>dla_os_interface.h\<close>, which
  are not in the source tree, are parameters.
\<close>

record dla_config =
  MAX_NUM_NVDLA_PREFENCES :: nat
  MAX_NUM_NVDLA_POSTFENCES :: nat
  MAX_NUM_NVDLA_IN_TASK_STATUS :: nat
  MAX_NUM_NVDLA_OUT_TASK_STATUS :: nat
  MAX_NUM_ACTION_LIST :: nat
  sizeof_dla_action_opcode :: nat
  sizeof_dla_action_semaphore :: nat
  sizeof_dla_action_task_status :: nat
  sizeof_dla_action_list :: nat
  sizeof_dla_task_descriptor :: nat
  DLA_DESCRIPTOR_VERSION :: nat
  DLA_ENGINE_ID :: nat

definition nvdla_get_max_preaction_size :: "dla_config \<Rightarrow> nat" where
  "nvdla_get_max_preaction_size c =
     (MAX_NUM_NVDLA_PREFENCES c + MAX_NUM_NVDLA_IN_TASK_STATUS c) * sizeof_dla_action_opcode c
     + MAX_NUM_NVDLA_PREFENCES c * sizeof_dla_action_semaphore c
     + MAX_NUM_NVDLA_IN_TASK_STATUS c * sizeof_dla_action_task_status c
     + sizeof_dla_action_opcode c"

definition nvdla_get_max_postaction_size :: "dla_config \<Rightarrow> nat" where
  "nvdla_get_max_postaction_size c =
     (MAX_NUM_NVDLA_POSTFENCES c + MAX_NUM_NVDLA_OUT_TASK_STATUS c) * sizeof_dla_action_opcode c
     + MAX_NUM_NVDLA_POSTFENCES c * sizeof_dla_action_semaphore c
     + MAX_NUM_NVDLA_OUT_TASK_STATUS c * sizeof_dla_action_task_status c
     + sizeof_dla_action_opcode c"

text \<open>The source adds the pre-action maximum twice.\<close>

definition nvdla_get_task_desc_size :: "dla_config \<Rightarrow> nat" where
  "nvdla_get_task_desc_size c =
     sizeof_dla_task_descriptor c
     + 2 * MAX_NUM_ACTION_LIST c * sizeof_dla_action_list c
     + nvdla_get_max_preaction_size c
     + nvdla_get_max_preaction_size c"

fun sizeof_cell :: "dla_config \<Rightarrow> cell \<Rightarrow> nat" where
  "sizeof_cell c (dla_action_opcode op) = sizeof_dla_action_opcode c"
| "sizeof_cell c (dla_action_semaphore a v) = sizeof_dla_action_semaphore c"
| "sizeof_cell c (dla_action_task_status a st) = sizeof_dla_action_task_status c"

text \<open>\<^verbatim>\<open>next - start\<close>: the bytes between the start of a list and its cursor.\<close>

definition cursor_bytes :: "dla_config \<Rightarrow> cell list \<Rightarrow> nat" where
  "cursor_bytes c mem = sum_list (map (sizeof_cell c) mem)"

text \<open>The bytes of the cells behind a cursor, in the order they were written.\<close>

definition cells_bytes :: "dla_config \<Rightarrow> cell list \<Rightarrow> mem_byte list" where
  "cells_bytes c mem = concat (map (\<lambda>x. map (Byte x) [0..<sizeof_cell c x]) mem)"

subsection \<open>Action encoder\<close>

definition add_opcode :: "cell list \<Rightarrow> opcode \<Rightarrow> cell list" where
  "add_opcode mem op = mem @ [dla_action_opcode op]"

definition add_fence_action :: "cell list \<Rightarrow> opcode \<Rightarrow> u64 \<Rightarrow> u32 \<Rightarrow> cell list" where
  "add_fence_action mem op addr val = add_opcode mem op @ [dla_action_semaphore addr val]"

definition add_status_action :: "cell list \<Rightarrow> opcode \<Rightarrow> u64 \<Rightarrow> u16 \<Rightarrow> cell list" where
  "add_status_action mem op addr st = add_opcode mem op @ [dla_action_task_status addr st]"

subsection \<open>The pinning collaborator\<close>

text \<open>
  Modelled from the spec: \<^verbatim>\<open>nvhost_buffer_submit_pin\<close> is not in the source tree.
  The spec's \<open>pin(buffers[]) -> Result<device_addr[], Error>\<close> gives one device address
  per handle or fails as a whole; \<open>pin_ret\<close> says what each handle resolves to.
\<close>

fun nvhost_buffer_submit_pin :: "env \<Rightarrow> u32 list \<Rightarrow> error + u64 list" where
  "nvhost_buffer_submit_pin e [] = Inr []"
| "nvhost_buffer_submit_pin e (h # hs) =
     (case pin_ret e h of
        Inl err \<Rightarrow> Inl err
      | Inr a \<Rightarrow> (case nvhost_buffer_submit_pin e hs of
                    Inl err \<Rightarrow> Inl err
                  | Inr as \<Rightarrow> Inr (a # as)))"

subsection \<open>Filling the action lists\<close>

text \<open>
  The loops carry the cursor (the cells written since \<open>start\<close>) and the trace.
  In the fence loops a failed pin leaves the \<^verbatim>\<open>switch\<close> and the loop goes on; an
  unknown fence type returns \<^verbatim>\<open>-EINVAL\<close> at once.
\<close>

fun fill_postfences ::
  "env \<Rightarrow> u32 \<Rightarrow> nvdla_fence list \<Rightarrow> cell list \<times> event list
     \<Rightarrow> error option \<times> cell list \<times> event list" where
  "fill_postfences e sid [] (nxt, tr) = (None, nxt, tr)"
| "fill_postfences e sid (f # fs) (nxt, tr) =
     (case type f of
        NVDLA_FENCE_TYPE_SYNCPT \<Rightarrow>
          fill_postfences e sid fs
            (add_fence_action nxt POSTACTION_SEM (nvhost_syncpt_address_ret e sid) 0, tr)
      | NVDLA_FENCE_TYPE_TS_SEMAPHORE \<Rightarrow>
          (case nvhost_buffer_submit_pin e [sem_handle f] of
             Inl err \<Rightarrow>
               fill_postfences e sid fs (nxt, tr @ [call_nvhost_buffer_submit_pin [sem_handle f]])
           | Inr dma_addr \<Rightarrow>
               fill_postfences e sid fs
                 (add_fence_action nxt POSTACTION_TS_SEM
                    (hd dma_addr + ucast (sem_offset f)) (sem_val f),
                  tr @ [call_nvhost_buffer_submit_pin [sem_handle f]]))
      | NVDLA_FENCE_TYPE_SEMAPHORE \<Rightarrow>
          (case nvhost_buffer_submit_pin e [sem_handle f] of
             Inl err \<Rightarrow>
               fill_postfences e sid fs (nxt, tr @ [call_nvhost_buffer_submit_pin [sem_handle f]])
           | Inr dma_addr \<Rightarrow>
               fill_postfences e sid fs
                 (add_fence_action nxt POSTACTION_SEM
                    (hd dma_addr + ucast (sem_offset f)) (sem_val f),
                  tr @ [call_nvhost_buffer_submit_pin [sem_handle f]]))
      | _ \<Rightarrow> (Some EINVAL, nxt, tr))"

text \<open>
  The status loops have no \<^verbatim>\<open>switch\<close>: \<^verbatim>\<open>break\<close> on a failed pin leaves the
  \<^verbatim>\<open>for\<close> loop itself.
\<close>

fun fill_task_status ::
  "env \<Rightarrow> opcode \<Rightarrow> nvdla_status_notify list \<Rightarrow> cell list \<times> event list
     \<Rightarrow> cell list \<times> event list" where
  "fill_task_status e op [] (nxt, tr) = (nxt, tr)"
| "fill_task_status e op (n # ns) (nxt, tr) =
     (case nvhost_buffer_submit_pin e [handle n] of
        Inl err \<Rightarrow> (nxt, tr @ [call_nvhost_buffer_submit_pin [handle n]])
      | Inr dma_addr \<Rightarrow>
          fill_task_status e op ns
            (add_status_action nxt op (hd dma_addr + ucast (offset n)) (status n),
             tr @ [call_nvhost_buffer_submit_pin [handle n]]))"

text \<open>
  The points of one sync fd, as pairs of syncpoint id and threshold: the inner loop
  stops at the first invalid point.
\<close>

fun fill_sync_pts :: "env \<Rightarrow> (u32 \<times> u32) list \<Rightarrow> cell list \<Rightarrow> cell list" where
  "fill_sync_pts e [] nxt = nxt"
| "fill_sync_pts e ((i, thresh) # pts) nxt =
     (if i = 0 \<or> \<not> nvhost_syncpt_is_valid_hw_pt_ret e i then nxt
      else fill_sync_pts e pts
             (add_fence_action nxt PREACTION_SEM_GE (nvhost_syncpt_address_ret e i) thresh))"

fun fill_prefences ::
  "env \<Rightarrow> nvdla_fence list \<Rightarrow> cell list \<times> event list
     \<Rightarrow> error option \<times> cell list \<times> event list" where
  "fill_prefences e [] (nxt, tr) = (None, nxt, tr)"
| "fill_prefences e (f # fs) (nxt, tr) =
     (case type f of
        NVDLA_FENCE_TYPE_SYNC_FD \<Rightarrow>
          (case nvhost_sync_fdget_ret e (sync_fd f) of
             None \<Rightarrow> fill_prefences e fs (nxt, tr)
           | Some pts \<Rightarrow> fill_prefences e fs (fill_sync_pts e pts nxt, tr))
      | NVDLA_FENCE_TYPE_SYNCPT \<Rightarrow>
          fill_prefences e fs
            (add_fence_action nxt PREACTION_SEM_GE
               (nvhost_syncpt_address_ret e (syncpoint_index f)) (syncpoint_value f), tr)
      | NVDLA_FENCE_TYPE_SEMAPHORE \<Rightarrow>
          (case nvhost_buffer_submit_pin e [sem_handle f] of
             Inl err \<Rightarrow>
               fill_prefences e fs (nxt, tr @ [call_nvhost_buffer_submit_pin [sem_handle f]])
           | Inr dma_addr \<Rightarrow>
               fill_prefences e fs
                 (add_fence_action nxt PREACTION_SEM_GE
                    (hd dma_addr + ucast (sem_offset f)) (sem_val f),
                  tr @ [call_nvhost_buffer_submit_pin [sem_handle f]]))
      | _ \<Rightarrow> (Some EINVAL, nxt, tr))"

text \<open>
  \<^verbatim>\<open>nvdla_fill_postactions\<close> and \<^verbatim>\<open>nvdla_fill_preactions\<close>: the cells written
  through the cursor lie in the slot from \<^verbatim>\<open>start\<close> on, which is the descriptor plus the
  16-bit list offset. On \<^verbatim>\<open>-EINVAL\<close> the cells written so far stay there, without
  terminator, and the list header is not written. The post-action list starts
  \<open>nvdla_get_max_preaction_size\<close> bytes after the pre-action list, in the same memory.
\<close>

definition nvdla_fill_postactions ::
  "dla_config \<Rightarrow> env \<Rightarrow> nvhost_queue \<Rightarrow> nvdla_task \<Rightarrow> event list
     \<Rightarrow> error option \<times> nvdla_task \<times> event list" where
  "nvdla_fill_postactions c e q task tr =
     (case task_desc task of
        None \<Rightarrow> (Some Oops, task, tr)
      | Some d \<Rightarrow>
          let postactionlist_of =
                (of_nat (postactions d + sizeof_dla_action_list c
                          + nvdla_get_max_preaction_size c) :: u16);
              (err, nxt, tr1) =
                fill_postfences e (syncpt_id q)
                  (take (num_postfences task) (postfences task)) ([], tr)
          in case err of
               Some x \<Rightarrow>
                 (Some x,
                  task\<lparr>task_desc := Some (d\<lparr>desc_mem :=
                         write_bytes (unat postactionlist_of) (cells_bytes c nxt) (desc_mem d)\<rparr>)\<rparr>,
                  tr1)
             | None \<Rightarrow>
                 let (nxt2, tr2) =
                       fill_task_status e POSTACTION_TASK_STATUS
                         (take (num_out_task_status task) (out_task_status task)) (nxt, tr1);
                     nxt3 = add_opcode nxt2 POSTACTION_TERMINATE
                 in (None,
                     task\<lparr>task_desc := Some (d\<lparr>desc_mem :=
                              write_bytes (unat postactionlist_of) (cells_bytes c nxt3) (desc_mem d),
                            postaction_list := \<lparr>al_offset = postactionlist_of,
                                                al_size = cursor_bytes c nxt3\<rparr>\<rparr>)\<rparr>,
                     tr2))"

definition nvdla_fill_preactions ::
  "dla_config \<Rightarrow> env \<Rightarrow> nvhost_queue \<Rightarrow> nvdla_task \<Rightarrow> event list
     \<Rightarrow> error option \<times> nvdla_task \<times> event list" where
  "nvdla_fill_preactions c e q task tr =
     (case task_desc task of
        None \<Rightarrow> (Some Oops, task, tr)
      | Some d \<Rightarrow>
          let preactionlist_of = (of_nat (postactions d + sizeof_dla_action_list c) :: u16);
              (err, nxt, tr1) =
                fill_prefences e (take (num_prefences task) (prefences task)) ([], tr)
          in case err of
               Some x \<Rightarrow>
                 (Some x,
                  task\<lparr>task_desc := Some (d\<lparr>desc_mem :=
                         write_bytes (unat preactionlist_of) (cells_bytes c nxt) (desc_mem d)\<rparr>)\<rparr>,
                  tr1)
             | None \<Rightarrow>
                 let (nxt2, tr2) =
                       fill_task_status e PREACTION_TASK_STATUS
                         (take (num_in_task_status task) (in_task_status task)) (nxt, tr1);
                     nxt3 = add_opcode nxt2 PREACTION_TERMINATE
                 in (None,
                     task\<lparr>task_desc := Some (d\<lparr>desc_mem :=
                              write_bytes (unat preactionlist_of) (cells_bytes c nxt3) (desc_mem d),
                            preaction_list := \<lparr>al_offset = preactionlist_of,
                                               al_size = cursor_bytes c nxt3\<rparr>\<rparr>)\<rparr>,
                     tr2))"

subsection \<open>Memory handle resolver\<close>

text \<open>
  \<^verbatim>\<open>nvdla_map_task_memory\<close>. \<open>addresses_buf e i\<close> is entry \<open>i\<close> of the address list
  as read through the kernel mapping. The temporaries \<^verbatim>\<open>dma_addr\<close> and \<^verbatim>\<open>dma_size\<close>
  leave no trace. On the failure paths \<^verbatim>\<open>task->memory_handles\<close> is freed and the
  pointer is left as it is.
\<close>

definition address_list_handles :: "env \<Rightarrow> nvdla_task \<Rightarrow> u32 list" where
  "address_list_handles e task =
     mem_handle (address_list task)
       # map (\<lambda>i. mem_handle (addresses_buf e i)) [0..<num_addresses task]"

definition nvdla_map_task_memory ::
  "env \<Rightarrow> nvdla_task \<Rightarrow> event list \<Rightarrow> error option \<times> nvdla_task \<times> event list" where
  "nvdla_map_task_memory e task tr =
     (let task1 = task\<lparr>num_handles := 0\<rparr>;
          task2 = (if num_addresses task1 \<noteq> 0
                   then task1\<lparr>num_handles := num_addresses task1 + 1\<rparr> else task1)
      in
      if num_handles task2 = 0 then (None, task2, tr)
      else if \<not> kcalloc_handles_ok e then (Some ENOMEM, task2\<lparr>memory_handles := None\<rparr>, tr)
      else
        let task3 = task2\<lparr>memory_handles := Some (replicate (num_handles task2) 0)\<rparr> in
        if \<not> kcalloc_dma_addr_ok e then (Some ENOMEM, task3, tr @ [call_kfree_memory_handles])
        else if \<not> kcalloc_dma_size_ok e
        then (Some ENOMEM, task3, tr @ [call_kfree_memory_handles])
        else
          let task4 = task3\<lparr>memory_handles :=
                        Some (mem_handle (address_list task3)
                                # replicate (num_addresses task3) 0)\<rparr>;
              tr1 = tr @ [call_dma_buf_get (mem_handle (address_list task3))]
          in
          case dma_buf_get_ret e of
            Some err \<Rightarrow> (Some err, task4, tr1 @ [call_kfree_memory_handles])
          | None \<Rightarrow>
              if \<not> dma_buf_vmap_ok e
              then (Some ENOMEM, task4, tr1 @ [call_dma_buf_vmap, call_kfree_memory_handles])
              else
                let task5 = task4\<lparr>memory_handles := Some (address_list_handles e task4)\<rparr>;
                    pinned = take (num_handles task5) (address_list_handles e task4);
                    tr2 = tr1 @ [call_dma_buf_vmap, call_nvhost_buffer_submit_pin pinned]
                in
                case nvhost_buffer_submit_pin e pinned of
                  Inl err \<Rightarrow> (Some err, task5, tr2 @ [call_kfree_memory_handles])
                | Inr dma_addr \<Rightarrow>
                    (case task_desc task5 of
                       None \<Rightarrow> (Some Oops, task5, tr2)
                     | Some d \<Rightarrow>
                         let d1 = d\<lparr>desc_num_addresses := num_addresses task5,
                                    desc_address_list :=
                                      hd dma_addr + ucast (mem_offset (address_list task5))\<rparr>;
                             dma_addr_list =
                               map (\<lambda>i. dma_addr ! (i + 1)
                                          + ucast (mem_offset (addresses_buf e i)))
                                 [0..<num_addresses task5]
                         in (None, task5\<lparr>task_desc := Some d1\<rparr>,
                             tr2 @ [write_dma_addr_list dma_addr_list,
                                    call_dma_buf_vunmap, call_dma_buf_put])))"

subsection \<open>Building the task descriptor\<close>

text \<open>
  \<^verbatim>\<open>nvdla_assign_task_desc_mem\<close>: the allocator hands back the pool slot, that is the
  descriptor memory as it is at that moment, its DMA address and its index.
\<close>

definition nvdla_assign_task_desc_mem ::
  "env \<Rightarrow> nvdla_task \<Rightarrow> event list \<Rightarrow> error option \<times> nvdla_task \<times> event list" where
  "nvdla_assign_task_desc_mem e task tr =
     (case nvhost_queue_alloc_task_memory_ret e of
        Inl err \<Rightarrow> (Some err, task, tr @ [call_nvhost_queue_alloc_task_memory])
      | Inr (va, dma_addr, idx) \<Rightarrow>
          (None, task\<lparr>task_desc := Some va, task_desc_pa := dma_addr, pool_index := idx\<rparr>,
           tr @ [call_nvhost_queue_alloc_task_memory]))"

text \<open>
  \<^verbatim>\<open>nvdla_fill_task_desc\<close>. The values returned by \<^verbatim>\<open>nvdla_fill_preactions\<close> and
  \<^verbatim>\<open>nvdla_fill_postactions\<close> are not looked at, as in the source.
\<close>

definition UINT_MAX :: u32 where
  "UINT_MAX = 0xFFFFFFFF"

text \<open>
  \<^verbatim>\<open>queue->sequence = queue->sequence + 1\<close>, reset to 0 when it reaches
  \<^verbatim>\<open>UINT_MAX - 1\<close>.
\<close>

definition bump_sequence :: "nvhost_queue \<Rightarrow> nvhost_queue" where
  "bump_sequence q =
     (let seq1 = queue_sequence q + 1
      in q\<lparr>queue_sequence := (if seq1 \<ge> UINT_MAX - 1 then 0 else seq1)\<rparr>)"

text \<open>The static header fields, written once the sequence number is known.\<close>

definition init_task_desc ::
  "dla_config \<Rightarrow> nvhost_queue \<Rightarrow> dla_task_descriptor \<Rightarrow> dla_task_descriptor" where
  "init_task_desc c q d =
     d\<lparr>version := DLA_DESCRIPTOR_VERSION c,
       engine_id := DLA_ENGINE_ID c,
       desc_size := nvdla_get_task_desc_size c,
       sequence := queue_sequence q,
       num_preactions := MAX_NUM_ACTION_LIST c,
       num_postactions := MAX_NUM_ACTION_LIST c,
       queue_id := id_q q,
       preactions := sizeof_dla_task_descriptor c,
       postactions := sizeof_dla_task_descriptor c + sizeof_dla_action_list c\<rparr>"

definition nvdla_fill_task_desc ::
  "dla_config \<Rightarrow> env \<Rightarrow> system \<Rightarrow> nvdla_task \<Rightarrow> error option \<times> system \<times> nvdla_task" where
  "nvdla_fill_task_desc c e s task =
     (case nvdla_assign_task_desc_mem e task (trace s) of
        (Some err, task0, tr0) \<Rightarrow> (Some err, s\<lparr>trace := tr0\<rparr>, task0)
      | (None, task0, tr0) \<Rightarrow>
          (case task_desc task0 of
             None \<Rightarrow> (Some Oops, s\<lparr>trace := tr0\<rparr>, task0)
           | Some d \<Rightarrow>
               let q = bump_sequence (queue s);
                   task1 = task0\<lparr>task_desc := Some (init_task_desc c q d)\<rparr>;
                   (r_pre, task2, tr2) = nvdla_fill_preactions c e q task1 tr0;
                   (r_post, task3, tr3) = nvdla_fill_postactions c e q task2 tr2;
                   (err, task4, tr4) = nvdla_map_task_memory e task3 tr3
               in case err of
                    Some x \<Rightarrow>
                      (case nvdla_release_task_desc_mem (s\<lparr>queue := q, trace := tr4\<rparr>) task4 of
                         (s', task5) \<Rightarrow> (Some x, s', task5))
                  | None \<Rightarrow> (None, s\<lparr>queue := q, trace := tr4\<rparr>, task4)))"

section \<open>Observations\<close>

text \<open>The tasks unlinked by \<^verbatim>\<open>list_del\<close>, in the order of the calls.\<close>

fun released :: "event list \<Rightarrow> nat list" where
  "released [] = []"
| "released (call_list_del p # es) = p # released es"
| "released (_ # es) = released es"

text \<open>
  A submit links the task when the power reference is granted and the descriptor of
  the last in-flight task can be chained.
\<close>

definition submit_links :: "env \<Rightarrow> system \<Rightarrow> bool" where
  "submit_links e s \<longleftrightarrow>
     nvhost_module_busy_ret e = None \<and>
     (tasklist (queue s) = [] \<or> task_desc (last (tasklist (queue s))) \<noteq> None)"




fun pinned :: "event list \<Rightarrow> u32 list list" where
  "pinned [] = []"
| "pinned (call_nvhost_buffer_submit_pin hs # es) = hs # pinned es"
| "pinned (_ # es) = pinned es"

text \<open>
  The resolver gets as far as its pin call when its three allocations, \<^verbatim>\<open>dma_buf_get\<close>
  and \<^verbatim>\<open>dma_buf_vmap\<close> succeed.
\<close>

definition reaches_pin :: "env \<Rightarrow> bool" where
  "reaches_pin e \<longleftrightarrow>
     kcalloc_handles_ok e \<and> kcalloc_dma_addr_ok e \<and> kcalloc_dma_size_ok e \<and>
     dma_buf_get_ret e = None \<and> dma_buf_vmap_ok e"

text \<open>
  The task as \<^verbatim>\<open>nvdla_fill_task_desc\<close> hands it to the two fill functions: pool slot
  assigned, header fields written.
\<close>

definition built_input :: "dla_config \<Rightarrow> system \<Rightarrow> nvdla_task \<Rightarrow> dla_task_descriptor \<Rightarrow> u64 \<Rightarrow> nat \<Rightarrow> nvdla_task" where
  "built_input c s task va pa idx =
     task\<lparr>task_desc_pa := pa, pool_index := idx,
          task_desc := Some (init_task_desc c (bump_sequence (queue s)) va)\<rparr>"

text \<open>
  The bytes the engine finds for an action list: it reads the list header and then,
  from the header's offset, as many bytes as the header's size.
\<close>

definition encoded_list :: "dla_task_descriptor \<Rightarrow> dla_action_list \<Rightarrow> mem_byte option list" where
  "encoded_list d l = read_bytes (desc_mem d) (unat (al_offset l)) (al_size l)"


section \<open>Example inputs\<close>

definition zero_desc :: dla_task_descriptor where
  "zero_desc = \<lparr>version = 0, engine_id = 0, desc_size = 0, sequence = 0, num_preactions = 0,
                 num_postactions = 0, queue_id = 0, preactions = 0, postactions = 0,
                 desc_num_addresses = 0, desc_address_list = 0, desc_next = 0,
                 preaction_list = \<lparr>al_offset = 0, al_size = 0\<rparr>,
                 postaction_list = \<lparr>al_offset = 0, al_size = 0\<rparr>,
                 desc_mem = (\<lambda>a. None)\<rparr>"

definition env_ok :: env where
  "env_ok = \<lparr>nvhost_module_busy_ret = None,
              nvhost_intr_register_notifier_ret = None,
              nvdla_send_cmd_ret = (\<lambda>k. None),
              pin_ret = (\<lambda>h. Inr (ucast h * 4096)),
              nvhost_queue_alloc_task_memory_ret = Inr (zero_desc, 65536, 1),
              kcalloc_handles_ok = True,
              kcalloc_dma_addr_ok = True,
              kcalloc_dma_size_ok = True,
              dma_buf_get_ret = None,
              dma_buf_vmap_ok = True,
              addresses_buf = (\<lambda>i. \<lparr>mem_handle = of_nat i + 100, mem_offset = 16\<rparr>),
              nvhost_sync_fdget_ret = (\<lambda>fd. None),
              nvhost_syncpt_is_valid_hw_pt_ret = (\<lambda>i. True),
              nvhost_syncpt_address_ret = (\<lambda>i. ucast i * 4096)\<rparr>"

definition zero_fence :: nvdla_fence where
  "zero_fence = \<lparr>type = NVDLA_FENCE_TYPE_SYNCPT, syncpoint_index = 0, syncpoint_value = 0,
                  sync_fd = 0, sem_handle = 0, sem_offset = 0, sem_val = 0\<rparr>"

definition built_task :: "nat \<Rightarrow> u32 \<Rightarrow> nvdla_task" where
  "built_task p f = \<lparr>task_p = p, ref = 1, prefences = [], postfences = [zero_fence],
       in_task_status = [], out_task_status = [],
       num_prefences = 0, num_postfences = 1, num_in_task_status = 0, num_out_task_status = 0,
       num_addresses = 0, address_list = \<lparr>mem_handle = 0, mem_offset = 0\<rparr>,
       memory_handles = None, num_handles = 0, fence = f,
       task_desc = Some zero_desc, task_desc_pa = of_nat p * 256, pool_index = p\<rparr>"

definition sys :: "nvdla_task list \<Rightarrow> u32 \<Rightarrow> u32 \<Rightarrow> system" where
  "sys ts lo hi = \<lparr>queue = \<lparr>id_q = 0, syncpt_id = 9, queue_sequence = 0, tasklist = ts\<rparr>,
                   sp = \<lparr>min_val = lo, max_val = hi\<rparr>, trace = []\<rparr>"

definition sem_fence :: "fence_type \<Rightarrow> u32 \<Rightarrow> nvdla_fence" where
  "sem_fence k h = zero_fence\<lparr>type := k, sem_handle := h, sem_offset := 8, sem_val := 3\<rparr>"

definition status_entry :: "u32 \<Rightarrow> nvdla_status_notify" where
  "status_entry h = \<lparr>handle = h, offset = 4, status = 2\<rparr>"


definition example_config :: dla_config where
  "example_config = \<lparr>MAX_NUM_NVDLA_PREFENCES = 4, MAX_NUM_NVDLA_POSTFENCES = 4,
      MAX_NUM_NVDLA_IN_TASK_STATUS = 4, MAX_NUM_NVDLA_OUT_TASK_STATUS = 4,
      MAX_NUM_ACTION_LIST = 1, sizeof_dla_action_opcode = 1,
      sizeof_dla_action_semaphore = 12, sizeof_dla_action_task_status = 10,
      sizeof_dla_action_list = 4, sizeof_dla_task_descriptor = 40,
      DLA_DESCRIPTOR_VERSION = 1, DLA_ENGINE_ID = 1\<rparr>"

text \<open>A task with an address list of two entries behind handle 20.\<close>

definition indirect_task :: nvdla_task where
  "indirect_task = (built_task 7 0)
     \<lparr>num_addresses := 2, address_list := \<lparr>mem_handle = 20, mem_offset = 64\<rparr>\<rparr>"

text \<open>A task with one syncpoint pre-fence (syncpoint 3, threshold 10) and one syncpoint post-fence.\<close>

definition fence_task :: nvdla_task where
  "fence_task = (built_task 7 0)
     \<lparr>prefences := [zero_fence\<lparr>syncpoint_index := 3, syncpoint_value := 10\<rparr>],
      num_prefences := 1\<rparr>"

text \<open>An environment in which pinning handle 6 fails and every other handle pins.\<close>

definition env_pin_fails :: env where
  "env_pin_fails = env_ok\<lparr>pin_ret := \<lambda>h. if h = 6 then Inl ENOMEM else Inr (ucast h * 4096)\<rparr>"

text \<open>A task with two semaphore pre-fences and two input status entries, on handles 6 and 8.\<close>

definition flaky_task :: nvdla_task where
  "flaky_task = (built_task 7 0)
     \<lparr>prefences := [sem_fence NVDLA_FENCE_TYPE_SEMAPHORE 6, sem_fence NVDLA_FENCE_TYPE_SEMAPHORE 8],
      num_prefences := 2,
      in_task_status := [status_entry 6, status_entry 8], num_in_task_status := 2\<rparr>"

text \<open>A task whose only pre-fence has a kind no \<^verbatim>\<open>case\<close> matches.\<close>

definition bad_fence_task :: nvdla_task where
  "bad_fence_task = (built_task 7 0)
     \<lparr>prefences := [zero_fence\<lparr>type := NVDLA_FENCE_TYPE_OTHER 99\<rparr>], num_prefences := 1\<rparr>"

text \<open>An environment in which every sync fd holds eight valid points of syncpoint 3.\<close>

definition env_sync_fd :: env where
  "env_sync_fd = env_ok\<lparr>nvhost_sync_fdget_ret :=
     \<lambda>fd. Some [(3, 1), (3, 2), (3, 3), (3, 4), (3, 5), (3, 6), (3, 7), (3, 8)]\<rparr>"

text \<open>A task whose only pre-fence is a sync fd.\<close>

definition sync_fd_task :: nvdla_task where
  "sync_fd_task = (built_task 7 0)
     \<lparr>prefences := [zero_fence\<lparr>type := NVDLA_FENCE_TYPE_SYNC_FD, sync_fd := 5\<rparr>],
      num_prefences := 1\<rparr>"

section \<open>Properties\<close>

subsection \<open>Basic facts about the state\<close>

lemmas ex_defs = env_ok_def zero_fence_def zero_desc_def built_task_def sys_def


lemma released_append: "released (xs @ ys) = released xs @ released ys"
  by (induction xs rule: released.induct) auto

lemma sp_log [simp]: "sp (log es s) = sp s"
  and queue_log [simp]: "queue (log es s) = queue s"
  and trace_log [simp]: "trace (log es s) = trace s @ es"
  by (simp_all add: log_def)

lemma released_unpin_prefences [simp]: "released (unpin_prefences fs) = []"
  by (induction fs) auto
lemma released_unpin_postfences [simp]: "released (unpin_postfences fs) = []"
  by (induction fs) auto
lemma released_unpin_task_status [simp]: "released (unpin_task_status fs) = []"
  by (induction fs) auto
lemma released_task_unpins [simp]: "released (task_unpins t) = []"
  by (simp add: task_unpins_def released_append)

lemma task_put_sp [simp]: "sp (fst (nvdla_task_put s t)) = sp s"
  and task_put_queue [simp]: "queue (fst (nvdla_task_put s t)) = queue s"
  by (simp_all add: nvdla_task_put_def task_free_def nvdla_release_task_desc_mem_def Let_def)

lemma task_put_released [simp]: "released (trace (fst (nvdla_task_put s t))) = released (trace s)"
  by (simp add: nvdla_task_put_def task_free_def nvdla_release_task_desc_mem_def Let_def released_append)

lemma free_locked_sp [simp]: "sp (nvdla_task_free_locked s t) = sp s"
  by (simp add: nvdla_task_free_locked_def Let_def)

lemma free_locked_tasklist [simp]:
  "tasklist (queue (nvdla_task_free_locked s t)) = filter (\<lambda>x. task_p x \<noteq> task_p t) (tasklist (queue s))"
  by (simp add: nvdla_task_free_locked_def Let_def)

lemma free_locked_released [simp]:
  "released (trace (nvdla_task_free_locked s t)) = released (trace s) @ [task_p t]"
  by (simp add: nvdla_task_free_locked_def Let_def released_append)

lemma loop_sp [simp]: "sp (queue_update_loop ts s) = sp s"
  by (induction ts arbitrary: s) auto

lemma loop_released:
  "released (trace (queue_update_loop ts s)) =
     released (trace s) @ map task_p (filter (\<lambda>t. nvhost_syncpt_is_expired (sp s) (fence t)) ts)"
  by (induction ts arbitrary: s) auto

lemma loop_tasklist:
  "tasklist (queue (queue_update_loop ts s)) =
     filter (\<lambda>x. task_p x \<notin> task_p ` {t \<in> set ts. nvhost_syncpt_is_expired (sp s) (fence t)}) (tasklist (queue s))"
proof (induction ts arbitrary: s)
  case Nil
  then show ?case by simp
next
  case (Cons t ts)
  show ?case by (auto simp: Cons.IH intro!: filter_cong)
qed

lemma filter_distinct_ids:
  "distinct (map task_p ts) \<Longrightarrow>
   filter (\<lambda>x. task_p x \<notin> task_p ` {t \<in> set ts. P t}) ts = filter (\<lambda>t. \<not> P t) ts"
  by (rule filter_cong) (auto simp: distinct_map inj_on_def)

lemma reset_sp [simp]: "max_val (sp (nvdla_task_syncpt_reset s i f)) = max_val (sp s)"
  and reset_min [simp]: "min_val (sp (nvdla_task_syncpt_reset s i f)) = f"
  and reset_queue [simp]: "queue (nvdla_task_syncpt_reset s i f) = queue s"
  and reset_trace [simp]: "trace (nvdla_task_syncpt_reset s i f) = trace s @ [call_syncpt_op_reset i]"
  by (simp_all add: nvdla_task_syncpt_reset_def)

lemma set_tail_simps [simp]:
  "sp (set_tail s t) = sp s"
  "trace (set_tail s t) = trace s"
  "tasklist (queue (set_tail s t)) = butlast (tasklist (queue s)) @ [t]"
  "syncpt_id (queue (set_tail s t)) = syncpt_id (queue s)"
  by (simp_all add: set_tail_def)

lemma chain_last_fences:
  assumes "chain_last ts pa = Some ts'"
  shows "map fence ts' = map fence ts"
proof (cases "ts = []")
  case True
  with assms show ?thesis by (simp add: chain_last_def)
next
  case False
  then obtain d where "ts' = butlast ts @ [(last ts)\<lparr>task_desc := Some d\<rparr>]"
    using assms by (auto simp: chain_last_def split: option.splits)
  then have "map fence ts' = map fence (butlast ts @ [last ts])" by simp
  with False show ?thesis by simp
qed

lemma submit_linked:
  assumes "submit_links e s"
  shows "map fence (tasklist (queue (snd (nvdla_queue_submit e s task)))) =
           map fence (tasklist (queue s)) @ [max_val (sp s) + 1]"
    and "max_val (sp (snd (nvdla_queue_submit e s task))) = max_val (sp s) + 1"
proof -
  obtain ts where ts: "chain_last (tasklist (queue s)) (task_desc_pa task) = Some ts"
    using assms by (cases "tasklist (queue s) = []") (auto simp: submit_links_def chain_last_def)
  have fs: "map fence ts = map fence (tasklist (queue s))"
    using ts by (rule chain_last_fences)
  show "map fence (tasklist (queue (snd (nvdla_queue_submit e s task)))) =
           map fence (tasklist (queue s)) @ [max_val (sp s) + 1]"
    using assms ts fs
    by (simp add: nvdla_queue_submit_def submit_links_def nvdla_task_get_def
        nvhost_syncpt_incr_max_def Let_def split: option.splits)
  show "max_val (sp (snd (nvdla_queue_submit e s task))) = max_val (sp s) + 1"
    using assms ts
    by (simp add: nvdla_queue_submit_def submit_links_def nvdla_task_get_def
        nvhost_syncpt_incr_max_def Let_def split: option.splits)
qed





lemma update_tasklist:
  assumes "distinct (map task_p (tasklist (queue s)))"
  shows "tasklist (queue (nvdla_queue_update s n)) =
           filter (\<lambda>t. \<not> fence t \<le> min_val (sp s)) (tasklist (queue s))"
  using filter_distinct_ids[OF assms, of "\<lambda>t. fence t \<le> min_val (sp s)"]
  by (simp add: nvdla_queue_update_def loop_tasklist nvhost_syncpt_is_expired_def)

lemma update_released:
  "released (trace (nvdla_queue_update s n)) =
     released (trace s) @ map task_p (filter (\<lambda>t. fence t \<le> min_val (sp s)) (tasklist (queue s)))"
  by (simp add: nvdla_queue_update_def loop_released released_append nvhost_syncpt_is_expired_def)

lemma chain_last_ids:
  assumes "chain_last ts pa = Some ts'"
  shows "map task_p ts' = map task_p ts"
proof (cases "ts = []")
  case True
  with assms show ?thesis by (simp add: chain_last_def)
next
  case False
  then obtain d where "ts' = butlast ts @ [(last ts)\<lparr>task_desc := Some d\<rparr>]"
    using assms by (auto simp: chain_last_def split: option.splits)
  then have "map task_p ts' = map task_p (butlast ts @ [last ts])" by simp
  with False show ?thesis by simp
qed

lemma submit_linked_ids:
  assumes "submit_links e s"
  shows "map task_p (tasklist (queue (snd (nvdla_queue_submit e s task)))) =
           map task_p (tasklist (queue s)) @ [task_p task]"
proof -
  obtain ts where ts: "chain_last (tasklist (queue s)) (task_desc_pa task) = Some ts"
    using assms by (cases "tasklist (queue s) = []") (auto simp: submit_links_def chain_last_def)
  have ids: "map task_p ts = map task_p (tasklist (queue s))"
    using ts by (rule chain_last_ids)
  show ?thesis
    using assms ts ids
    by (simp add: nvdla_queue_submit_def submit_links_def nvdla_task_get_def
        nvhost_syncpt_incr_max_def Let_def split: option.splits)
qed




lemma free_locked_syncpt_id [simp]:
  "syncpt_id (queue (nvdla_task_free_locked s task)) = syncpt_id (queue s)"
  by (simp add: nvdla_task_free_locked_def Let_def)





lemma submit_tail:
  assumes "submit_links e s"
  shows "tasklist (queue (snd (nvdla_queue_submit e s task))) \<noteq> []"
    and "task_p (last (tasklist (queue (snd (nvdla_queue_submit e s task))))) = task_p task"
    and "fence (last (tasklist (queue (snd (nvdla_queue_submit e s task))))) = max_val (sp s) + 1"
    and "length (tasklist (queue (snd (nvdla_queue_submit e s task)))) = Suc (length (tasklist (queue s)))"
proof -
  obtain ts where ts: "chain_last (tasklist (queue s)) (task_desc_pa task) = Some ts"
    using assms by (cases "tasklist (queue s) = []") (auto simp: submit_links_def chain_last_def)
  have len: "length ts = length (tasklist (queue s))"
    using chain_last_fences[OF ts] by (metis length_map)
  note defs = nvdla_queue_submit_def submit_links_def nvdla_task_get_def
        nvhost_syncpt_incr_max_def Let_def
  show "tasklist (queue (snd (nvdla_queue_submit e s task))) \<noteq> []"
    using assms ts by (simp add: defs split: option.splits)
  show "task_p (last (tasklist (queue (snd (nvdla_queue_submit e s task))))) = task_p task"
    using assms ts by (simp add: defs split: option.splits)
  show "fence (last (tasklist (queue (snd (nvdla_queue_submit e s task))))) = max_val (sp s) + 1"
    using assms ts by (simp add: defs split: option.splits)
  show "length (tasklist (queue (snd (nvdla_queue_submit e s task)))) = Suc (length (tasklist (queue s)))"
    using assms ts len by (simp add: defs split: option.splits)
qed

subsection \<open>Submit: failed dispatch\<close>

text \<open>
  C5. When the dispatch command fails, submit calls the counter reset with the fence
  target just assigned and returns the error of the command. Afterwards the issued
  maximum of the counter is that target, which is also the current value the reset has
  written, and the task is linked at the tail of the in-flight list, behind the tasks
  that were there.
\<close>

theorem dispatch_failure_resets_to_target:
  assumes "submit_links e s"
    and "nvhost_intr_register_notifier_ret e = None"
    and "nvdla_send_cmd_ret e 0 = Some err"
  shows "fst (nvdla_queue_submit e s task) = Some err \<and>
         max_val (sp (snd (nvdla_queue_submit e s task))) =
           fence (last (tasklist (queue (snd (nvdla_queue_submit e s task))))) \<and>
         fence (last (tasklist (queue (snd (nvdla_queue_submit e s task))))) = max_val (sp s) + 1 \<and>
         min_val (sp (snd (nvdla_queue_submit e s task))) = max_val (sp s) + 1 \<and>
         map task_p (tasklist (queue (snd (nvdla_queue_submit e s task)))) =
           map task_p (tasklist (queue s)) @ [task_p task] \<and>
         trace (snd (nvdla_queue_submit e s task)) =
           trace s @ [call_nvhost_module_busy, call_nvhost_queue_get,
                      call_nvhost_syncpt_get_ref (syncpt_id (queue s)),
                      call_nvhost_intr_register_notifier (syncpt_id (queue s)) (max_val (sp s) + 1),
                      call_nvdla_send_cmd DLA_CMD_SUBMIT_TASK (submit_method_data task),
                      call_syncpt_op_reset (syncpt_id (queue s))]"
proof -
  obtain ts where ts: "chain_last (tasklist (queue s)) (task_desc_pa task) = Some ts"
    using assms(1) by (cases "tasklist (queue s) = []") (auto simp: submit_links_def chain_last_def)
  have "fst (nvdla_queue_submit e s task) = Some err"
    and "min_val (sp (snd (nvdla_queue_submit e s task))) = max_val (sp s) + 1"
    and "trace (snd (nvdla_queue_submit e s task)) =
           trace s @ [call_nvhost_module_busy, call_nvhost_queue_get,
                      call_nvhost_syncpt_get_ref (syncpt_id (queue s)),
                      call_nvhost_intr_register_notifier (syncpt_id (queue s)) (max_val (sp s) + 1),
                      call_nvdla_send_cmd DLA_CMD_SUBMIT_TASK (submit_method_data task),
                      call_syncpt_op_reset (syncpt_id (queue s))]"
    using assms ts
    by (simp_all add: nvdla_queue_submit_def submit_links_def nvdla_task_get_def
        nvhost_syncpt_incr_max_def submit_method_data_def Let_def)
  then show ?thesis
    using submit_tail[OF assms(1), of task] submit_linked(2)[OF assms(1), of task]
      submit_linked_ids[OF assms(1), of task]
    by simp
qed

theorem dispatch_failure_resets_to_target_witness:
  "submit_links (env_ok\<lparr>nvdla_send_cmd_ret := \<lambda>k. Some (Errno (- 5))\<rparr>) (sys [built_task 1 4] 3 4) \<and>
   nvhost_intr_register_notifier_ret (env_ok\<lparr>nvdla_send_cmd_ret := \<lambda>k. Some (Errno (- 5))\<rparr>) = None \<and>
   fst (nvdla_queue_submit (env_ok\<lparr>nvdla_send_cmd_ret := \<lambda>k. Some (Errno (- 5))\<rparr>)
          (sys [built_task 1 4] 3 4) (built_task 2 0)) = Some (Errno (- 5)) \<and>
   sp (snd (nvdla_queue_submit (env_ok\<lparr>nvdla_send_cmd_ret := \<lambda>k. Some (Errno (- 5))\<rparr>)
          (sys [built_task 1 4] 3 4) (built_task 2 0))) = \<lparr>min_val = 5, max_val = 5\<rparr> \<and>
   fence (last (tasklist (queue (snd (nvdla_queue_submit
          (env_ok\<lparr>nvdla_send_cmd_ret := \<lambda>k. Some (Errno (- 5))\<rparr>)
          (sys [built_task 1 4] 3 4) (built_task 2 0)))))) = 5 \<and>
   map task_p (tasklist (queue (snd (nvdla_queue_submit
          (env_ok\<lparr>nvdla_send_cmd_ret := \<lambda>k. Some (Errno (- 5))\<rparr>)
          (sys [built_task 1 4] 3 4) (built_task 2 0))))) = [1, 2] \<and>
   trace (snd (nvdla_queue_submit (env_ok\<lparr>nvdla_send_cmd_ret := \<lambda>k. Some (Errno (- 5))\<rparr>)
          (sys [built_task 1 4] 3 4) (built_task 2 0))) =
     [call_nvhost_module_busy, call_nvhost_queue_get, call_nvhost_syncpt_get_ref 9,
      call_nvhost_intr_register_notifier 9 5, call_nvdla_send_cmd DLA_CMD_SUBMIT_TASK 2,
      call_syncpt_op_reset 9]"
proof -
  let ?e = "env_ok\<lparr>nvdla_send_cmd_ret := \<lambda>k. Some (Errno (- 5))\<rparr>"
  let ?s = "sys [built_task 1 4] 3 4"
  let ?r = "snd (nvdla_queue_submit ?e ?s (built_task 2 0))"
  have h1: "submit_links ?e ?s" by (simp add: submit_links_def ex_defs)
  have h2: "nvhost_intr_register_notifier_ret ?e = None" by (simp add: ex_defs)
  have h3: "nvdla_send_cmd_ret ?e 0 = Some (Errno (- 5))" by simp
  have m: "submit_method_data (built_task 2 0) = 2"
    by (simp add: submit_method_data_def built_task_def drop_bit_eq_div)
  have i: "map task_p (tasklist (queue ?s)) @ [task_p (built_task 2 0)] = [1, 2]"
    "max_val (sp ?s) + 1 = 5" "syncpt_id (queue ?s) = 9" "trace ?s = []"
    by (simp_all add: ex_defs)
  have "sp ?r = \<lparr>min_val = min_val (sp ?r), max_val = max_val (sp ?r)\<rparr>"
    by simp
  then show ?thesis
    using h1 h2 m dispatch_failure_resets_to_target [OF h1 h2 h3, of "built_task 2 0"]
    unfolding i by simp
qed

subsection \<open>Submit: failed notifier registration\<close>




subsection \<open>Abort\<close>

lemma ordered_le_last:
  assumes "sorted_wrt (<) (map fence ts)" and "t \<in> set ts"
  shows "fence t \<le> fence (last ts)"
proof (cases "t = last ts")
  case True
  then show ?thesis by simp
next
  case False
  have ne: "ts \<noteq> []" using assms(2) by auto
  then have split: "ts = butlast ts @ [last ts]" by simp
  then have "t \<in> set (butlast ts)" using assms(2) False
    by (metis Un_iff empty_iff empty_set set_ConsD set_append)
  moreover have "sorted_wrt (<) (map fence (butlast ts) @ [fence (last ts)])"
    using assms(1) split by (metis list.simps(8,9) map_append)
  ultimately have "fence t < fence (last ts)"
    by (auto simp: sorted_wrt_append)
  then show ?thesis by simp
qed

lemma flush_loop_exhausted:
  "flush_loop e q k (Suc r) = (err, 0, es) \<Longrightarrow> err = Some DLA_ERR_PROCESSOR_BUSY"
proof (induction r arbitrary: k es)
  case 0
  then show ?case by (auto simp: Let_def split: if_splits)
next
  case (Suc r)
  show ?case
  proof (cases "nvdla_send_cmd_ret e k = Some DLA_ERR_PROCESSOR_BUSY")
    case True
    obtain err' r' es' where rec: "flush_loop e q (Suc k) (Suc r) = (err', r', es')"
      by (cases "flush_loop e q (Suc k) (Suc r)")
    from Suc.prems True rec have "err' = err" "r' = 0"
      by (simp_all add: Let_def)
    with rec Suc.IH show ?thesis by blast
  next
    case False
    with Suc.prems show ?thesis by (simp add: Let_def)
  qed
qed

lemma flush_loop_released: "released (snd (snd (flush_loop e q k r))) = []"
proof (induction r arbitrary: k)
  case 0
  show ?case by simp
next
  case (Suc r)
  show ?case
    using Suc.IH[of "Suc k"]
    by (cases "flush_loop e q (Suc k) r") (simp add: Let_def)
qed

lemma retry_count: "NVDLA_QUEUE_ABORT_TIMEOUT div NVDLA_QUEUE_ABORT_RETRY_PERIOD = Suc 19"
  by (simp add: NVDLA_QUEUE_ABORT_TIMEOUT_def NVDLA_QUEUE_ABORT_RETRY_PERIOD_def)

lemma abort_empty: "tasklist (queue s) = [] \<Longrightarrow> nvdla_queue_abort e s = (None, s)"
  by (simp add: nvdla_queue_abort_def)

lemma abort_success:
  assumes "tasklist (queue s) \<noteq> []" and "fst (nvdla_queue_abort e s) = None"
  shows "min_val (sp (snd (nvdla_queue_abort e s))) = fence (last (tasklist (queue s)))"
    and "max_val (sp (snd (nvdla_queue_abort e s))) = max_val (sp s)"
    and "queue (snd (nvdla_queue_abort e s)) = queue s"
    and "released (trace (snd (nvdla_queue_abort e s))) = released (trace s)"
proof -
  obtain err r es where fl: "flush_loop e (id_q (queue s)) 0 (Suc 19) = (err, r, es)"
    by (cases "flush_loop e (id_q (queue s)) 0 (Suc 19)")
  have rel: "released es = []"
    using flush_loop_released[of e "id_q (queue s)" 0 "Suc 19"] fl by simp
  have busy: "nvhost_module_busy_ret e = None"
    using assms by (auto simp: nvdla_queue_abort_def Let_def split: option.splits)
  have err: "err = None"
    using assms busy fl by (auto simp: nvdla_queue_abort_def retry_count Let_def split: if_splits)
  have r: "r \<noteq> 0"
    using flush_loop_exhausted[of e "id_q (queue s)" 0 19 err es] fl err by auto
  note defs = nvdla_queue_abort_def retry_count Let_def
  show "min_val (sp (snd (nvdla_queue_abort e s))) = fence (last (tasklist (queue s)))"
    using assms(1) busy fl err r by (simp add: defs)
  show "max_val (sp (snd (nvdla_queue_abort e s))) = max_val (sp s)"
    using assms(1) busy fl err r by (simp add: defs)
  show "queue (snd (nvdla_queue_abort e s)) = queue s"
    using assms(1) busy fl err r by (simp add: defs)
  show "released (trace (snd (nvdla_queue_abort e s))) = released (trace s)"
    using assms(1) busy fl err r rel by (simp add: defs released_append)
qed

text \<open>
  C6 (amended). When abort returns success: on an empty queue the state, trace included,
  is unchanged; on a non-empty queue the current value is the fence target of the last
  in-flight task and the in-flight list is as before, nothing being released by abort
  itself. The next sweep then releases exactly the tasks whose target is not above the
  target of the last task, in list order. When the targets increase strictly along the
  list, these are all the tasks, and the sweep leaves the list empty.
\<close>

theorem abort_resets_then_sweep_drains:
  assumes "distinct (map task_p (tasklist (queue s)))"
    and "fst (nvdla_queue_abort e s) = None"
  shows "(tasklist (queue s) = [] \<longrightarrow> snd (nvdla_queue_abort e s) = s) \<and>
         (tasklist (queue s) \<noteq> [] \<longrightarrow>
            min_val (sp (snd (nvdla_queue_abort e s))) = fence (last (tasklist (queue s)))) \<and>
         tasklist (queue (snd (nvdla_queue_abort e s))) = tasklist (queue s) \<and>
         released (trace (snd (nvdla_queue_abort e s))) = released (trace s) \<and>
         (tasklist (queue s) \<noteq> [] \<longrightarrow>
            tasklist (queue (nvdla_queue_update (snd (nvdla_queue_abort e s)) n)) =
              filter (\<lambda>t. \<not> fence t \<le> fence (last (tasklist (queue s)))) (tasklist (queue s)) \<and>
            released (trace (nvdla_queue_update (snd (nvdla_queue_abort e s)) n)) =
              released (trace s) @
                map task_p (filter (\<lambda>t. fence t \<le> fence (last (tasklist (queue s))))
                              (tasklist (queue s)))) \<and>
         (sorted_wrt (<) (map fence (tasklist (queue s))) \<longrightarrow>
            tasklist (queue (nvdla_queue_update (snd (nvdla_queue_abort e s)) n)) = [] \<and>
            released (trace (nvdla_queue_update (snd (nvdla_queue_abort e s)) n)) =
              released (trace s) @ map task_p (tasklist (queue s)))"
proof (cases "tasklist (queue s) = []")
  case True
  then show ?thesis
    by (simp add: abort_empty update_tasklist update_released)
next
  case False
  let ?s' = "snd (nvdla_queue_abort e s)"
  let ?ts = "tasklist (queue s)"
  note ab = abort_success[OF False assms(2)]
  have d: "distinct (map task_p (tasklist (queue ?s')))"
    using assms(1) ab(3) by simp
  have gen: "tasklist (queue (nvdla_queue_update ?s' n)) =
               filter (\<lambda>t. \<not> fence t \<le> fence (last ?ts)) ?ts"
    "released (trace (nvdla_queue_update ?s' n)) =
       released (trace s) @ map task_p (filter (\<lambda>t. fence t \<le> fence (last ?ts)) ?ts)"
    using ab update_tasklist[OF d, of n] update_released[of ?s' n] by simp_all
  have ord: "tasklist (queue (nvdla_queue_update ?s' n)) = [] \<and>
             released (trace (nvdla_queue_update ?s' n)) = released (trace s) @ map task_p ?ts"
    if "sorted_wrt (<) (map fence ?ts)"
  proof -
    have all: "\<forall>t \<in> set ?ts. fence t \<le> fence (last ?ts)"
      using ordered_le_last[OF that] by simp
    have "filter (\<lambda>t. \<not> fence t \<le> fence (last ?ts)) ?ts = []"
      using all by (simp add: filter_empty_conv)
    moreover have "filter (\<lambda>t. fence t \<le> fence (last ?ts)) ?ts = ?ts"
      using all by (simp add: filter_id_conv)
    ultimately show ?thesis
      using gen by simp
  qed
  show ?thesis
    using False ab gen ord by simp
qed

lemma flush_loop_done:
  "0 < r \<Longrightarrow> nvdla_send_cmd_ret e k \<noteq> Some DLA_ERR_PROCESSOR_BUSY \<Longrightarrow>
   flush_loop e q k r =
     (nvdla_send_cmd_ret e k, r, [call_nvdla_send_cmd DLA_CMD_QUEUE_FLUSH q])"
  by (cases r) (simp_all add: Let_def)

lemma flush_loop_busy:
  "1 < r \<Longrightarrow> nvdla_send_cmd_ret e k = Some DLA_ERR_PROCESSOR_BUSY \<Longrightarrow>
   flush_loop e q k r =
     (case flush_loop e q (k + 1) (r - 1) of
        (err', r', es) \<Rightarrow>
          (err', r', call_nvdla_send_cmd DLA_CMD_QUEUE_FLUSH q
                       # call_mdelay NVDLA_QUEUE_ABORT_RETRY_PERIOD # es))"
  by (cases r) (simp_all add: Let_def)

lemma abort_busy_twice:
  "nvdla_queue_abort
      (env_ok\<lparr>nvdla_send_cmd_ret := \<lambda>k. if k < 2 then Some DLA_ERR_PROCESSOR_BUSY else None\<rparr>)
      (sys [built_task 7 41, built_task 8 42] 0 42) =
     (None,
      \<lparr>queue = \<lparr>id_q = 0, syncpt_id = 9, queue_sequence = 0,
                 tasklist = [built_task 7 41, built_task 8 42]\<rparr>,
       sp = \<lparr>min_val = 42, max_val = 42\<rparr>,
       trace = [call_nvhost_module_busy,
                call_nvdla_send_cmd DLA_CMD_QUEUE_FLUSH 0, call_mdelay 500,
                call_nvdla_send_cmd DLA_CMD_QUEUE_FLUSH 0, call_mdelay 500,
                call_nvdla_send_cmd DLA_CMD_QUEUE_FLUSH 0,
                call_syncpt_op_reset 9, call_nvhost_module_idle]\<rparr>)"
  by (simp add: nvdla_queue_abort_def NVDLA_QUEUE_ABORT_TIMEOUT_def
      NVDLA_QUEUE_ABORT_RETRY_PERIOD_def flush_loop_done flush_loop_busy Let_def log_def
      nvdla_task_syncpt_reset_def sys_def env_ok_def built_task_def del: flush_loop.simps)

lemma abort_unordered:
  "fst (nvdla_queue_abort env_ok (sys [built_task 7 50, built_task 8 42] 0 50)) = None"
  by (simp add: nvdla_queue_abort_def NVDLA_QUEUE_ABORT_TIMEOUT_def
      NVDLA_QUEUE_ABORT_RETRY_PERIOD_def flush_loop_done Let_def log_def
      nvdla_task_syncpt_reset_def sys_def env_ok_def built_task_def del: flush_loop.simps)

theorem abort_resets_then_sweep_drains_witness:
  "distinct (map task_p (tasklist (queue (sys [built_task 7 41, built_task 8 42] 0 42)))) \<and>
   sorted_wrt (<) (map fence (tasklist (queue (sys [built_task 7 41, built_task 8 42] 0 42)))) \<and>
   tasklist (queue (sys [built_task 7 41, built_task 8 42] 0 42)) \<noteq> [] \<and>
   nvdla_queue_abort
      (env_ok\<lparr>nvdla_send_cmd_ret := \<lambda>k. if k < 2 then Some DLA_ERR_PROCESSOR_BUSY else None\<rparr>)
      (sys [built_task 7 41, built_task 8 42] 0 42) =
     (None,
      \<lparr>queue = \<lparr>id_q = 0, syncpt_id = 9, queue_sequence = 0,
                 tasklist = [built_task 7 41, built_task 8 42]\<rparr>,
       sp = \<lparr>min_val = 42, max_val = 42\<rparr>,
       trace = [call_nvhost_module_busy,
                call_nvdla_send_cmd DLA_CMD_QUEUE_FLUSH 0, call_mdelay 500,
                call_nvdla_send_cmd DLA_CMD_QUEUE_FLUSH 0, call_mdelay 500,
                call_nvdla_send_cmd DLA_CMD_QUEUE_FLUSH 0,
                call_syncpt_op_reset 9, call_nvhost_module_idle]\<rparr>) \<and>
   tasklist (queue (nvdla_queue_update (snd (nvdla_queue_abort
      (env_ok\<lparr>nvdla_send_cmd_ret := \<lambda>k. if k < 2 then Some DLA_ERR_PROCESSOR_BUSY else None\<rparr>)
      (sys [built_task 7 41, built_task 8 42] 0 42))) 2)) = [] \<and>
   released (trace (nvdla_queue_update (snd (nvdla_queue_abort
      (env_ok\<lparr>nvdla_send_cmd_ret := \<lambda>k. if k < 2 then Some DLA_ERR_PROCESSOR_BUSY else None\<rparr>)
      (sys [built_task 7 41, built_task 8 42] 0 42))) 2)) = [7, 8] \<and>
   distinct (map task_p (tasklist (queue (sys [built_task 7 50, built_task 8 42] 0 50)))) \<and>
   fst (nvdla_queue_abort env_ok (sys [built_task 7 50, built_task 8 42] 0 50)) = None \<and>
   min_val (sp (snd (nvdla_queue_abort env_ok (sys [built_task 7 50, built_task 8 42] 0 50)))) = 42 \<and>
   tasklist (queue (nvdla_queue_update (snd (nvdla_queue_abort env_ok
      (sys [built_task 7 50, built_task 8 42] 0 50))) 1)) = [built_task 7 50] \<and>
   released (trace (nvdla_queue_update (snd (nvdla_queue_abort env_ok
      (sys [built_task 7 50, built_task 8 42] 0 50))) 1)) = [8] \<and>
   tasklist (queue (sys [] 0 0)) = [] \<and>
   nvdla_queue_abort env_ok (sys [] 0 0) = (None, sys [] 0 0)"
proof -
  let ?e = "env_ok\<lparr>nvdla_send_cmd_ret := \<lambda>k. if k < 2 then Some DLA_ERR_PROCESSOR_BUSY else None\<rparr>"
  let ?a = "sys [built_task 7 41, built_task 8 42] 0 42"
  let ?b = "sys [built_task 7 50, built_task 8 42] 0 50"
  let ?c = "sys [] 0 0"
  have a1: "distinct (map task_p (tasklist (queue ?a)))" by (simp add: ex_defs)
  have a2: "sorted_wrt (<) (map fence (tasklist (queue ?a)))" by (simp add: ex_defs)
  have a3: "fst (nvdla_queue_abort ?e ?a) = None" by (simp add: abort_busy_twice)
  have a4: "released (trace ?a) = []" "map task_p (tasklist (queue ?a)) = [7, 8]"
    "tasklist (queue ?a) \<noteq> []"
    by (simp_all add: ex_defs)
  have b1: "distinct (map task_p (tasklist (queue ?b)))" by (simp add: ex_defs)
  have b3: "fst (nvdla_queue_abort env_ok ?b) = None" by (rule abort_unordered)
  have b4: "released (trace ?b) = []" "tasklist (queue ?b) = [built_task 7 50, built_task 8 42]"
    "fence (built_task 7 50) = 50" "fence (built_task 8 42) = 42" "task_p (built_task 8 42) = 8"
    by (simp_all add: ex_defs)
  have c1: "distinct (map task_p (tasklist (queue ?c)))" "tasklist (queue ?c) = []"
    by (simp_all add: ex_defs)
  have c3: "fst (nvdla_queue_abort env_ok ?c) = None"
    by (simp add: abort_empty c1(2))
  have A: "tasklist (queue (nvdla_queue_update (snd (nvdla_queue_abort ?e ?a)) 2)) = [] \<and>
           released (trace (nvdla_queue_update (snd (nvdla_queue_abort ?e ?a)) 2)) = [7, 8]"
    using abort_resets_then_sweep_drains [OF a1 a3, of 2] a2 a4(1,2) by simp
  have B: "min_val (sp (snd (nvdla_queue_abort env_ok ?b))) = 42 \<and>
           tasklist (queue (nvdla_queue_update (snd (nvdla_queue_abort env_ok ?b)) 1)) =
             [built_task 7 50] \<and>
           released (trace (nvdla_queue_update (snd (nvdla_queue_abort env_ok ?b)) 1)) = [8]"
    using abort_resets_then_sweep_drains [OF b1 b3, of 1] by (simp add: b4)
  have C: "nvdla_queue_abort env_ok ?c = (None, ?c)"
    using abort_resets_then_sweep_drains [OF c1(1) c3, of 1] c1(2) c3
    by (simp add: prod_eq_iff)
  show ?thesis
    using a1 a2 a4(3) abort_busy_twice A b1 b3 B c1(2) C by simp
qed

text \<open>
  C6 as stated fails: after a successful abort the task is still in the in-flight list
  and has not been released.
\<close>

theorem abort_leaves_tasks_linked:
  "fst (nvdla_queue_abort env_ok (sys [built_task 7 42] 0 42)) = None \<and>
   tasklist (queue (snd (nvdla_queue_abort env_ok (sys [built_task 7 42] 0 42)))) = [built_task 7 42] \<and>
   released (trace (snd (nvdla_queue_abort env_ok (sys [built_task 7 42] 0 42)))) = []"
  by (simp add: nvdla_queue_abort_def NVDLA_QUEUE_ABORT_TIMEOUT_def
      NVDLA_QUEUE_ABORT_RETRY_PERIOD_def flush_loop_done Let_def log_def
      nvdla_task_syncpt_reset_def sys_def env_ok_def built_task_def del: flush_loop.simps)

subsection \<open>Release and unpinning\<close>










subsection \<open>Memory handle resolver\<close>

lemma pinned_append: "pinned (xs @ ys) = pinned xs @ pinned ys"
  by (induction xs rule: pinned.induct) auto

lemma map_no_addresses:
  "num_addresses task = 0 \<Longrightarrow>
   nvdla_map_task_memory e task tr = (None, task\<lparr>num_handles := 0\<rparr>, tr)"
  by (simp add: nvdla_map_task_memory_def Let_def)

lemma length_address_list_handles:
  "length (address_list_handles e task) = num_addresses task + 1"
  by (simp add: address_list_handles_def)

lemma map_pinned_reached:
  assumes "num_addresses task \<noteq> 0" and "reaches_pin e"
  shows "pinned (snd (snd (nvdla_map_task_memory e task tr))) =
           pinned tr @ [mem_handle (address_list task)
                          # map (\<lambda>i. mem_handle (addresses_buf e i)) [0..<num_addresses task]]"
  using assms
  by (simp add: nvdla_map_task_memory_def reaches_pin_def Let_def pinned_append
      address_list_handles_def split: sum.splits option.splits)

lemma map_pinned_not_reached:
  assumes "\<not> reaches_pin e"
  shows "pinned (snd (snd (nvdla_map_task_memory e task tr))) = pinned tr"
    and "fst (nvdla_map_task_memory e task tr) = None \<longrightarrow> num_addresses task = 0"
  using assms
  by (auto simp: nvdla_map_task_memory_def reaches_pin_def Let_def pinned_append
      split: sum.splits option.splits)

lemma map_num_handles:
  "num_handles (fst (snd (nvdla_map_task_memory e task tr))) =
     (if num_addresses task \<noteq> 0 then num_addresses task + 1 else 0)"
  by (simp add: nvdla_map_task_memory_def Let_def split: sum.splits option.splits)

text \<open>
  C4 (amended). With an address list (\<open>num_addresses\<close> not 0) the resolver sets
  \<open>num_handles = num_addresses + 1\<close> and, once its allocations and the mapping of the
  list have succeeded, makes exactly one pin call, for that many handles: the
  address-list handle first, then the handles read from the list, in order. Without an
  address list it sets \<open>num_handles = 0\<close> and makes no pin call. A successful run with
  an address list has made that one call.
\<close>

theorem resolver_pins_address_list_first:
  "num_handles (fst (snd (nvdla_map_task_memory e task tr))) =
     (if num_addresses task \<noteq> 0 then num_addresses task + 1 else 0) \<and>
   pinned (snd (snd (nvdla_map_task_memory e task tr))) =
     pinned tr @
       (if num_addresses task \<noteq> 0 \<and> reaches_pin e
        then [mem_handle (address_list task)
                # map (\<lambda>i. mem_handle (addresses_buf e i)) [0..<num_addresses task]]
        else []) \<and>
   length (mem_handle (address_list task)
             # map (\<lambda>i. mem_handle (addresses_buf e i)) [0..<num_addresses task]) =
     num_addresses task + 1 \<and>
   (fst (nvdla_map_task_memory e task tr) = None \<and> num_addresses task \<noteq> 0 \<longrightarrow> reaches_pin e)"
proof -
  have "pinned (snd (snd (nvdla_map_task_memory e task tr))) =
     pinned tr @
       (if num_addresses task \<noteq> 0 \<and> reaches_pin e
        then [mem_handle (address_list task)
                # map (\<lambda>i. mem_handle (addresses_buf e i)) [0..<num_addresses task]]
        else [])"
  proof (cases "reaches_pin e")
    case True
    then show ?thesis
      by (cases "num_addresses task = 0") (simp_all add: map_no_addresses map_pinned_reached)
  next
    case False
    then show ?thesis by (simp add: map_pinned_not_reached(1))
  qed
  moreover have "fst (nvdla_map_task_memory e task tr) = None \<and> num_addresses task \<noteq> 0
                   \<longrightarrow> reaches_pin e"
  proof (intro impI, rule ccontr)
    assume a: "fst (nvdla_map_task_memory e task tr) = None \<and> num_addresses task \<noteq> 0"
      and n: "\<not> reaches_pin e"
    from map_pinned_not_reached(2)[OF n, of task tr] a
    have "num_addresses task = 0" by (elim conjE impE) assumption+
    with a show False by (elim conjE notE)
  qed
  ultimately show ?thesis
    by (simp add: map_num_handles)
qed

lemma upt_0_2: "[0..<(2::nat)] = [0, 1]"
  by (simp add: upt_rec)

lemma map_indirect_task:
  "pinned (snd (snd (nvdla_map_task_memory env_ok indirect_task []))) = [[20, 100, 101]]"
  "fst (nvdla_map_task_memory env_ok indirect_task []) = None"
  by (simp_all add: nvdla_map_task_memory_def Let_def address_list_handles_def
        indirect_task_def ex_defs upt_0_2)

lemma map_direct_task:
  "pinned (snd (snd (nvdla_map_task_memory env_ok (built_task 7 0) []))) = []"
  by (simp add: nvdla_map_task_memory_def Let_def built_task_def)

theorem resolver_pins_address_list_first_witness:
  "num_addresses indirect_task \<noteq> 0 \<and> reaches_pin env_ok \<and>
   fst (nvdla_map_task_memory env_ok indirect_task []) = None \<and>
   num_handles (fst (snd (nvdla_map_task_memory env_ok indirect_task []))) = 3 \<and>
   pinned (snd (snd (nvdla_map_task_memory env_ok indirect_task []))) = [[20, 100, 101]]"
proof -
  have h1: "num_addresses indirect_task = 2" by (simp add: indirect_task_def built_task_def)
  have h2: "reaches_pin env_ok" by (simp add: reaches_pin_def env_ok_def)
  show ?thesis
    using h1 h2 map_indirect_task
      resolver_pins_address_list_first [of env_ok indirect_task "[]"]
    by simp
qed

text \<open>
  C4 as stated fails: the pinned array starts with the address-list handle, 20, instead
  of ending with it, and a task without address list causes no pin call at all.
\<close>

theorem address_list_handle_is_pinned_first:
  "pinned (snd (snd (nvdla_map_task_memory env_ok indirect_task []))) = [[20, 100, 101]] \<and>
   [20, 100, 101] \<noteq> [100, 101, 20 :: u32] \<and>
   pinned (snd (snd (nvdla_map_task_memory env_ok (built_task 7 0) []))) = []"
  by (simp add: map_indirect_task map_direct_task)

subsection \<open>Building the descriptor\<close>

lemma length_cells_bytes: "length (cells_bytes c xs) = cursor_bytes c xs"
  by (induction xs) (simp_all add: cells_bytes_def cursor_bytes_def)

lemma read_bytes_written:
  "read_bytes (write_bytes off bs m) off (length bs) = map Some bs"
  by (auto simp: read_bytes_def write_bytes_def intro!: nth_equalityI)

lemma read_bytes_elsewhere:
  "off' + n \<le> off \<or> off + length bs \<le> off' \<Longrightarrow>
   read_bytes (write_bytes off bs m) off' n = read_bytes m off' n"
  by (auto simp: read_bytes_def write_bytes_def)

lemma fill_task_desc_steps:
  assumes alloc: "nvhost_queue_alloc_task_memory_ret e = Inr (va, pa, idx)"
    and pre: "nvdla_fill_preactions c e (bump_sequence (queue s)) (built_input c s task va pa idx)
                (trace s @ [call_nvhost_queue_alloc_task_memory]) = (r_pre, task2, tr2)"
    and post: "nvdla_fill_postactions c e (bump_sequence (queue s)) task2 tr2 = (r_post, task3, tr3)"
    and res: "nvdla_map_task_memory e task3 tr3 = (err, task4, tr4)"
  shows "nvdla_fill_task_desc c e s task =
     (case err of
        Some x \<Rightarrow>
          (Some x, nvdla_release_task_desc_mem (s\<lparr>queue := bump_sequence (queue s), trace := tr4\<rparr>) task4)
      | None \<Rightarrow> (None, s\<lparr>queue := bump_sequence (queue s), trace := tr4\<rparr>, task4))"
  using alloc pre[unfolded built_input_def] post res
  by (auto simp: nvdla_fill_task_desc_def nvdla_assign_task_desc_mem_def Let_def
      split: prod.splits option.splits)

lemma bump_sequence_simps [simp]:
  "syncpt_id (bump_sequence q) = syncpt_id q"
  "id_q (bump_sequence q) = id_q q"
  "tasklist (bump_sequence q) = tasklist q"
  by (simp_all add: bump_sequence_def Let_def)

lemma init_task_desc_simps [simp]:
  "desc_mem (init_task_desc c q d) = desc_mem d"
  "postactions (init_task_desc c q d) = sizeof_dla_task_descriptor c + sizeof_dla_action_list c"
  by (simp_all add: init_task_desc_def)

lemma built_input_simps [simp]:
  "prefences (built_input c s task va pa idx) = prefences task"
  "postfences (built_input c s task va pa idx) = postfences task"
  "in_task_status (built_input c s task va pa idx) = in_task_status task"
  "out_task_status (built_input c s task va pa idx) = out_task_status task"
  "num_prefences (built_input c s task va pa idx) = num_prefences task"
  "num_postfences (built_input c s task va pa idx) = num_postfences task"
  "num_in_task_status (built_input c s task va pa idx) = num_in_task_status task"
  "num_out_task_status (built_input c s task va pa idx) = num_out_task_status task"
  "num_addresses (built_input c s task va pa idx) = num_addresses task"
  "task_desc (built_input c s task va pa idx) =
     Some (init_task_desc c (bump_sequence (queue s)) va)"
  by (simp_all add: built_input_def)

lemma fill_preactions_ok:
  assumes "task_desc task = Some d"
    and "fill_prefences e (take (num_prefences task) (prefences task)) ([], tr) = (None, nxt, tr1)"
    and "fill_task_status e PREACTION_TASK_STATUS
           (take (num_in_task_status task) (in_task_status task)) (nxt, tr1) = (nxt2, tr2)"
  shows "nvdla_fill_preactions c e q task tr =
     (None,
      task\<lparr>task_desc := Some (d\<lparr>desc_mem :=
               write_bytes (unat (of_nat (postactions d + sizeof_dla_action_list c) :: u16))
                 (cells_bytes c (add_opcode nxt2 PREACTION_TERMINATE)) (desc_mem d),
             preaction_list :=
               \<lparr>al_offset = of_nat (postactions d + sizeof_dla_action_list c),
                al_size = cursor_bytes c (add_opcode nxt2 PREACTION_TERMINATE)\<rparr>\<rparr>)\<rparr>,
      tr2)"
  using assms by (simp add: nvdla_fill_preactions_def Let_def)

lemma fill_preactions_err:
  assumes "task_desc task = Some d"
    and "fill_prefences e (take (num_prefences task) (prefences task)) ([], tr) = (Some x, nxt, tr1)"
  shows "nvdla_fill_preactions c e q task tr =
     (Some x,
      task\<lparr>task_desc := Some (d\<lparr>desc_mem :=
               write_bytes (unat (of_nat (postactions d + sizeof_dla_action_list c) :: u16))
                 (cells_bytes c nxt) (desc_mem d)\<rparr>)\<rparr>,
      tr1)"
  using assms by (simp add: nvdla_fill_preactions_def Let_def)

lemma fill_postactions_ok:
  assumes "task_desc task = Some d"
    and "fill_postfences e (syncpt_id q) (take (num_postfences task) (postfences task)) ([], tr)
           = (None, nxt, tr1)"
    and "fill_task_status e POSTACTION_TASK_STATUS
           (take (num_out_task_status task) (out_task_status task)) (nxt, tr1) = (nxt2, tr2)"
  shows "nvdla_fill_postactions c e q task tr =
     (None,
      task\<lparr>task_desc := Some (d\<lparr>desc_mem :=
               write_bytes (unat (of_nat (postactions d + sizeof_dla_action_list c
                                      + nvdla_get_max_preaction_size c) :: u16))
                 (cells_bytes c (add_opcode nxt2 POSTACTION_TERMINATE)) (desc_mem d),
             postaction_list :=
               \<lparr>al_offset = of_nat (postactions d + sizeof_dla_action_list c
                                      + nvdla_get_max_preaction_size c),
                al_size = cursor_bytes c (add_opcode nxt2 POSTACTION_TERMINATE)\<rparr>\<rparr>)\<rparr>,
      tr2)"
  using assms by (simp add: nvdla_fill_postactions_def Let_def)

lemma map_task_memory_frame:
  "prefences (fst (snd (nvdla_map_task_memory e t tr))) = prefences t"
  "postfences (fst (snd (nvdla_map_task_memory e t tr))) = postfences t"
  "map_option desc_mem (task_desc (fst (snd (nvdla_map_task_memory e t tr))))
     = map_option desc_mem (task_desc t)"
  "map_option preaction_list (task_desc (fst (snd (nvdla_map_task_memory e t tr))))
     = map_option preaction_list (task_desc t)"
  "map_option postaction_list (task_desc (fst (snd (nvdla_map_task_memory e t tr))))
     = map_option postaction_list (task_desc t)"
  by (simp_all add: nvdla_map_task_memory_def Let_def split: sum.splits option.splits)

lemma fill_task_desc_alloc_fail:
  "nvhost_queue_alloc_task_memory_ret e = Inl err \<Longrightarrow>
   fst (nvdla_fill_task_desc c e s task) = Some err"
  by (simp add: nvdla_fill_task_desc_def nvdla_assign_task_desc_mem_def)


lemma submit_tail_registered:
  assumes "submit_links e s" and "nvhost_intr_register_notifier_ret e = None"
  shows "last (tasklist (queue (snd (nvdla_queue_submit e s task)))) =
           task\<lparr>ref := ref task + 1, fence := max_val (sp s) + 1,
                postfences := write_postfence0 (postfences task) (syncpt_id (queue s))
                                (max_val (sp s) + 1)\<rparr>"
proof -
  obtain ts where ts: "chain_last (tasklist (queue s)) (task_desc_pa task) = Some ts"
    using assms(1) by (cases "tasklist (queue s) = []") (auto simp: submit_links_def chain_last_def)
  show ?thesis
    using assms ts
    by (simp add: nvdla_queue_submit_def submit_links_def nvdla_task_get_def
        nvhost_syncpt_incr_max_def Let_def split: option.splits)
qed

lemma submit_tail_unregistered:
  assumes "submit_links e s" and "nvhost_intr_register_notifier_ret e = Some err"
  shows "last (tasklist (queue (snd (nvdla_queue_submit e s task)))) =
           task\<lparr>ref := ref task + 1, fence := max_val (sp s) + 1\<rparr>"
proof -
  obtain ts where ts: "chain_last (tasklist (queue s)) (task_desc_pa task) = Some ts"
    using assms(1) by (cases "tasklist (queue s) = []") (auto simp: submit_links_def chain_last_def)
  show ?thesis
    using assms ts
    by (simp add: nvdla_queue_submit_def submit_links_def nvdla_task_get_def
        nvhost_syncpt_incr_max_def Let_def)
qed

lemma built_lists:
  assumes alloc: "nvhost_queue_alloc_task_memory_ret e = Inr (va, pa, idx)"
    and build: "fst (nvdla_fill_task_desc c e s task) = None"
    and pre: "fill_prefences e (take (num_prefences task) (prefences task))
                ([], trace s @ [call_nvhost_queue_alloc_task_memory]) = (None, nxt, tr1)"
    and ist: "fill_task_status e PREACTION_TASK_STATUS
                (take (num_in_task_status task) (in_task_status task)) (nxt, tr1) = (nxt2, tr2)"
    and post: "fill_postfences e (syncpt_id (queue s))
                 (take (num_postfences task) (postfences task)) ([], tr2) = (None, nxt3, tr3)"
    and ost: "fill_task_status e POSTACTION_TASK_STATUS
                (take (num_out_task_status task) (out_task_status task)) (nxt3, tr3) = (nxt4, tr4)"
  shows "map_option preaction_list (task_desc (snd (snd (nvdla_fill_task_desc c e s task)))) =
           Some \<lparr>al_offset = of_nat (sizeof_dla_task_descriptor c + sizeof_dla_action_list c
                                     + sizeof_dla_action_list c),
                 al_size = cursor_bytes c (add_opcode nxt2 PREACTION_TERMINATE)\<rparr>"
    and "map_option postaction_list (task_desc (snd (snd (nvdla_fill_task_desc c e s task)))) =
           Some \<lparr>al_offset = of_nat (sizeof_dla_task_descriptor c + sizeof_dla_action_list c
                                     + sizeof_dla_action_list c + nvdla_get_max_preaction_size c),
                 al_size = cursor_bytes c (add_opcode nxt4 POSTACTION_TERMINATE)\<rparr>"
    and "map_option desc_mem (task_desc (snd (snd (nvdla_fill_task_desc c e s task)))) =
           Some (write_bytes
                   (unat (of_nat (sizeof_dla_task_descriptor c + sizeof_dla_action_list c
                                   + sizeof_dla_action_list c + nvdla_get_max_preaction_size c) :: u16))
                   (cells_bytes c (add_opcode nxt4 POSTACTION_TERMINATE))
                   (write_bytes
                      (unat (of_nat (sizeof_dla_task_descriptor c + sizeof_dla_action_list c
                                      + sizeof_dla_action_list c) :: u16))
                      (cells_bytes c (add_opcode nxt2 PREACTION_TERMINATE)) (desc_mem va)))"
    and "postfences (snd (snd (nvdla_fill_task_desc c e s task))) = postfences task"
proof -
  let ?task' = "snd (snd (nvdla_fill_task_desc c e s task))"
  let ?q = "bump_sequence (queue s)"
  let ?t1 = "built_input c s task va pa idx"
  let ?d1 = "init_task_desc c ?q va"
  let ?d2 = "?d1\<lparr>desc_mem :=
               write_bytes (unat (of_nat (postactions ?d1 + sizeof_dla_action_list c) :: u16))
                 (cells_bytes c (add_opcode nxt2 PREACTION_TERMINATE)) (desc_mem ?d1),
             preaction_list :=
               \<lparr>al_offset = of_nat (postactions ?d1 + sizeof_dla_action_list c),
                al_size = cursor_bytes c (add_opcode nxt2 PREACTION_TERMINATE)\<rparr>\<rparr>"
  let ?t2 = "?t1\<lparr>task_desc := Some ?d2\<rparr>"
  let ?d3 = "?d2\<lparr>desc_mem :=
               write_bytes (unat (of_nat (postactions ?d2 + sizeof_dla_action_list c
                                      + nvdla_get_max_preaction_size c) :: u16))
                 (cells_bytes c (add_opcode nxt4 POSTACTION_TERMINATE)) (desc_mem ?d2),
             postaction_list :=
               \<lparr>al_offset = of_nat (postactions ?d2 + sizeof_dla_action_list c
                                      + nvdla_get_max_preaction_size c),
                al_size = cursor_bytes c (add_opcode nxt4 POSTACTION_TERMINATE)\<rparr>\<rparr>"
  let ?t3 = "?t2\<lparr>task_desc := Some ?d3\<rparr>"
  have p: "nvdla_fill_preactions c e ?q ?t1 (trace s @ [call_nvhost_queue_alloc_task_memory])
             = (None, ?t2, tr2)"
  proof (rule fill_preactions_ok)
    show "task_desc ?t1 = Some ?d1" by simp
    show "fill_prefences e (take (num_prefences ?t1) (prefences ?t1))
            ([], trace s @ [call_nvhost_queue_alloc_task_memory]) = (None, nxt, tr1)"
      using pre by simp
    show "fill_task_status e PREACTION_TASK_STATUS
            (take (num_in_task_status ?t1) (in_task_status ?t1)) (nxt, tr1) = (nxt2, tr2)"
      using ist by simp
  qed
  have o: "nvdla_fill_postactions c e ?q ?t2 tr2 = (None, ?t3, tr4)"
  proof (rule fill_postactions_ok)
    show "task_desc ?t2 = Some ?d2" by simp
    show "fill_postfences e (syncpt_id ?q) (take (num_postfences ?t2) (postfences ?t2)) ([], tr2)
            = (None, nxt3, tr3)"
      using post by simp
    show "fill_task_status e POSTACTION_TASK_STATUS
            (take (num_out_task_status ?t2) (out_task_status ?t2)) (nxt3, tr3) = (nxt4, tr4)"
      using ost by simp
  qed
  obtain err task4 tr5 where r: "nvdla_map_task_memory e ?t3 tr4 = (err, task4, tr5)"
    by (cases "nvdla_map_task_memory e ?t3 tr4")
  have res: "nvdla_fill_task_desc c e s task =
     (case err of
        Some x \<Rightarrow>
          (Some x, nvdla_release_task_desc_mem (s\<lparr>queue := ?q, trace := tr5\<rparr>) task4)
      | None \<Rightarrow> (None, s\<lparr>queue := ?q, trace := tr5\<rparr>, task4))"
    by (rule fill_task_desc_steps[OF alloc p o r])
  have t': "?task' = task4"
    using build res by (cases err) simp_all
  have t4: "task4 = fst (snd (nvdla_map_task_memory e ?t3 tr4))"
    using r by simp
  show "map_option preaction_list (task_desc ?task') =
           Some \<lparr>al_offset = of_nat (sizeof_dla_task_descriptor c + sizeof_dla_action_list c
                                     + sizeof_dla_action_list c),
                 al_size = cursor_bytes c (add_opcode nxt2 PREACTION_TERMINATE)\<rparr>"
    unfolding t' t4 map_task_memory_frame by simp
  show "map_option postaction_list (task_desc ?task') =
           Some \<lparr>al_offset = of_nat (sizeof_dla_task_descriptor c + sizeof_dla_action_list c
                                     + sizeof_dla_action_list c + nvdla_get_max_preaction_size c),
                 al_size = cursor_bytes c (add_opcode nxt4 POSTACTION_TERMINATE)\<rparr>"
    unfolding t' t4 map_task_memory_frame by simp
  show "map_option desc_mem (task_desc ?task') =
           Some (write_bytes
                   (unat (of_nat (sizeof_dla_task_descriptor c + sizeof_dla_action_list c
                                   + sizeof_dla_action_list c + nvdla_get_max_preaction_size c) :: u16))
                   (cells_bytes c (add_opcode nxt4 POSTACTION_TERMINATE))
                   (write_bytes
                      (unat (of_nat (sizeof_dla_task_descriptor c + sizeof_dla_action_list c
                                      + sizeof_dla_action_list c) :: u16))
                      (cells_bytes c (add_opcode nxt2 PREACTION_TERMINATE)) (desc_mem va)))"
    unfolding t' t4 map_task_memory_frame by simp
  show "postfences ?task' = postfences task"
    unfolding t' t4 map_task_memory_frame by simp
qed


lemma fill_preactions_frame:
  "\<exists>d'. fst (snd (nvdla_fill_preactions c e q task tr)) = task\<lparr>task_desc := d'\<rparr>"
proof (cases "task_desc task")
  case None
  then have "fst (snd (nvdla_fill_preactions c e q task tr)) = task\<lparr>task_desc := None\<rparr>"
    by (simp add: nvdla_fill_preactions_def)
  then show ?thesis by blast
next
  case (Some d)
  then show ?thesis
    by (auto simp: nvdla_fill_preactions_def Let_def split: prod.splits option.splits)
qed

lemma fill_postactions_frame:
  "\<exists>d'. fst (snd (nvdla_fill_postactions c e q task tr)) = task\<lparr>task_desc := d'\<rparr>"
proof (cases "task_desc task")
  case None
  then have "fst (snd (nvdla_fill_postactions c e q task tr)) = task\<lparr>task_desc := None\<rparr>"
    by (simp add: nvdla_fill_postactions_def)
  then show ?thesis by blast
next
  case (Some d)
  then show ?thesis
    by (auto simp: nvdla_fill_postactions_def Let_def split: prod.splits option.splits)
qed

lemma fill_task_desc_no_addresses:
  assumes alloc: "nvhost_queue_alloc_task_memory_ret e = Inr (va, pa, idx)"
    and na: "num_addresses task = 0"
  shows "fst (nvdla_fill_task_desc c e s task) = None"
proof -
  let ?q = "bump_sequence (queue s)"
  let ?t1 = "built_input c s task va pa idx"
  obtain r_pre task2 tr2 where
    p: "nvdla_fill_preactions c e ?q ?t1 (trace s @ [call_nvhost_queue_alloc_task_memory])
          = (r_pre, task2, tr2)"
    by (cases "nvdla_fill_preactions c e ?q ?t1 (trace s @ [call_nvhost_queue_alloc_task_memory])")
  obtain r_post task3 tr3 where o: "nvdla_fill_postactions c e ?q task2 tr2 = (r_post, task3, tr3)"
    by (cases "nvdla_fill_postactions c e ?q task2 tr2")
  obtain d2 where "task2 = ?t1\<lparr>task_desc := d2\<rparr>"
    using fill_preactions_frame[of c e ?q ?t1 "trace s @ [call_nvhost_queue_alloc_task_memory]"] p
    by auto
  moreover obtain d3 where "task3 = task2\<lparr>task_desc := d3\<rparr>"
    using fill_postactions_frame[of c e ?q task2 tr2] o by auto
  ultimately have "num_addresses task3 = 0"
    using na by simp
  then have r: "nvdla_map_task_memory e task3 tr3 = (None, task3\<lparr>num_handles := 0\<rparr>, tr3)"
    by (rule map_no_addresses)
  show ?thesis
    using fill_task_desc_steps[OF alloc p o r] by simp
qed

lemma build_allocated:
  assumes "fst (nvdla_fill_task_desc c e s task) = None"
  obtains va pa idx where "nvhost_queue_alloc_task_memory_ret e = Inr (va, pa, idx)"
proof (cases "nvhost_queue_alloc_task_memory_ret e")
  case (Inl err)
  then show ?thesis
    using assms fill_task_desc_alloc_fail[of e err c s task] by simp
next
  case (Inr r)
  then show ?thesis
    using that by (cases r) auto
qed

text \<open>Reading the two lists back from the slot after the build has written both.\<close>

lemma read_post_list:
  assumes "map_option postaction_list (task_desc t) =
             Some \<lparr>al_offset = off, al_size = cursor_bytes c post\<rparr>"
    and "map_option desc_mem (task_desc t) = Some (write_bytes (unat off) (cells_bytes c post) m)"
  shows "map_option (\<lambda>d. encoded_list d (postaction_list d)) (task_desc t) =
           Some (map Some (cells_bytes c post))"
proof -
  obtain d where d: "task_desc t = Some d"
    using assms(1) by (cases "task_desc t") simp_all
  have "read_bytes (write_bytes (unat off) (cells_bytes c post) m) (unat off)
          (length (cells_bytes c post)) = map Some (cells_bytes c post)"
    by (rule read_bytes_written)
  then show ?thesis
    using assms d by (simp add: encoded_list_def length_cells_bytes)
qed

lemma read_pre_list:
  assumes "map_option preaction_list (task_desc t) =
             Some \<lparr>al_offset = of_nat a, al_size = cursor_bytes c pre\<rparr>"
    and "map_option desc_mem (task_desc t) =
           Some (write_bytes (unat (of_nat b :: u16)) bs
                   (write_bytes (unat (of_nat a :: u16)) (cells_bytes c pre) m))"
    and "b < 2 ^ 16" and "a + cursor_bytes c pre \<le> b"
  shows "map_option (\<lambda>d. encoded_list d (preaction_list d)) (task_desc t) =
           Some (map Some (cells_bytes c pre))"
proof -
  obtain d where d: "task_desc t = Some d"
    using assms(1) by (cases "task_desc t") simp_all
  have ua: "unat (of_nat a :: u16) = a" and ub: "unat (of_nat b :: u16) = b"
    using assms(3,4) by (simp_all add: unat_of_nat)
  have "read_bytes (write_bytes b bs (write_bytes a (cells_bytes c pre) m)) a
          (length (cells_bytes c pre)) =
        read_bytes (write_bytes a (cells_bytes c pre) m) a (length (cells_bytes c pre))"
    by (rule read_bytes_elsewhere) (use assms(4) in \<open>simp add: length_cells_bytes\<close>)
  also have "\<dots> = map Some (cells_bytes c pre)"
    by (rule read_bytes_written)
  finally show ?thesis
    using assms(1,2) d by (simp add: encoded_list_def length_cells_bytes ua ub)
qed

lemma cursor_bytes_simps [simp]:
  "cursor_bytes c [] = 0"
  "cursor_bytes c (x # xs) = sizeof_cell c x + cursor_bytes c xs"
  "cursor_bytes c (xs @ ys) = cursor_bytes c xs + cursor_bytes c ys"
  by (simp_all add: cursor_bytes_def)

lemma syncpt_lists_built:
  assumes build: "fst (nvdla_fill_task_desc c e s task) = None"
    and pre: "take (num_prefences task) (prefences task) = [f]"
             "type f = NVDLA_FENCE_TYPE_SYNCPT"
    and post: "take (num_postfences task) (postfences task) = [g]"
              "type g = NVDLA_FENCE_TYPE_SYNCPT"
    and nost: "num_in_task_status task = 0" "num_out_task_status task = 0"
    and fits: "num_prefences task \<le> MAX_NUM_NVDLA_PREFENCES c"
              "sizeof_dla_task_descriptor c + 2 * sizeof_dla_action_list c
                 + nvdla_get_max_preaction_size c < 2 ^ 16"
  shows "map_option (\<lambda>d. encoded_list d (preaction_list d))
           (task_desc (snd (snd (nvdla_fill_task_desc c e s task)))) =
           Some (map Some (cells_bytes c
                  [dla_action_opcode PREACTION_SEM_GE,
                   dla_action_semaphore (nvhost_syncpt_address_ret e (syncpoint_index f))
                     (syncpoint_value f),
                   dla_action_opcode PREACTION_TERMINATE]))"
    and "map_option (\<lambda>d. encoded_list d (postaction_list d))
           (task_desc (snd (snd (nvdla_fill_task_desc c e s task)))) =
           Some (map Some (cells_bytes c
                  [dla_action_opcode POSTACTION_SEM,
                   dla_action_semaphore (nvhost_syncpt_address_ret e (syncpt_id (queue s))) 0,
                   dla_action_opcode POSTACTION_TERMINATE]))"
    and "postfences (snd (snd (nvdla_fill_task_desc c e s task))) = postfences task"
proof -
  let ?task' = "snd (snd (nvdla_fill_task_desc c e s task))"
  let ?pre = "[dla_action_opcode PREACTION_SEM_GE,
               dla_action_semaphore (nvhost_syncpt_address_ret e (syncpoint_index f))
                 (syncpoint_value f),
               dla_action_opcode PREACTION_TERMINATE]"
  let ?post = "[dla_action_opcode POSTACTION_SEM,
                dla_action_semaphore (nvhost_syncpt_address_ret e (syncpt_id (queue s))) 0,
                dla_action_opcode POSTACTION_TERMINATE]"
  obtain va pa idx where alloc: "nvhost_queue_alloc_task_memory_ret e = Inr (va, pa, idx)"
    using build by (rule build_allocated)
  let ?tr = "trace s @ [call_nvhost_queue_alloc_task_memory]"
  have p1: "fill_prefences e (take (num_prefences task) (prefences task)) ([], ?tr) =
              (None, add_fence_action [] PREACTION_SEM_GE
                       (nvhost_syncpt_address_ret e (syncpoint_index f)) (syncpoint_value f), ?tr)"
    by (simp add: pre)
  have s1: "fill_task_status e PREACTION_TASK_STATUS
              (take (num_in_task_status task) (in_task_status task))
              (add_fence_action [] PREACTION_SEM_GE
                 (nvhost_syncpt_address_ret e (syncpoint_index f)) (syncpoint_value f), ?tr) =
            (add_fence_action [] PREACTION_SEM_GE
                 (nvhost_syncpt_address_ret e (syncpoint_index f)) (syncpoint_value f), ?tr)"
    by (simp add: nost)
  have p2: "fill_postfences e (syncpt_id (queue s))
              (take (num_postfences task) (postfences task)) ([], ?tr) =
              (None, add_fence_action [] POSTACTION_SEM
                       (nvhost_syncpt_address_ret e (syncpt_id (queue s))) 0, ?tr)"
    by (simp add: post)
  have s2: "fill_task_status e POSTACTION_TASK_STATUS
              (take (num_out_task_status task) (out_task_status task))
              (add_fence_action [] POSTACTION_SEM
                       (nvhost_syncpt_address_ret e (syncpt_id (queue s))) 0, ?tr) =
            (add_fence_action [] POSTACTION_SEM
                       (nvhost_syncpt_address_ret e (syncpt_id (queue s))) 0, ?tr)"
    by (simp add: nost)
  note bl = built_lists[OF alloc build p1 s1 p2 s2]
  have e1: "add_opcode (add_fence_action [] PREACTION_SEM_GE
               (nvhost_syncpt_address_ret e (syncpoint_index f)) (syncpoint_value f))
               PREACTION_TERMINATE = ?pre"
    by (simp add: add_fence_action_def add_opcode_def)
  have e2: "add_opcode (add_fence_action [] POSTACTION_SEM
               (nvhost_syncpt_address_ret e (syncpt_id (queue s))) 0)
               POSTACTION_TERMINATE = ?post"
    by (simp add: add_fence_action_def add_opcode_def)
  have "1 \<le> num_prefences task"
    using pre(1) by (cases "num_prefences task") simp_all
  then obtain k where k: "MAX_NUM_NVDLA_PREFENCES c = Suc k"
    using fits(1) by (cases "MAX_NUM_NVDLA_PREFENCES c") simp_all
  have room: "cursor_bytes c ?pre \<le> nvdla_get_max_preaction_size c"
    by (simp add: nvdla_get_max_preaction_size_def k)
  show "map_option (\<lambda>d. encoded_list d (preaction_list d)) (task_desc ?task') =
          Some (map Some (cells_bytes c ?pre))"
  proof (rule read_pre_list)
    show "map_option preaction_list (task_desc ?task') =
            Some \<lparr>al_offset = of_nat (sizeof_dla_task_descriptor c + sizeof_dla_action_list c
                                     + sizeof_dla_action_list c),
                  al_size = cursor_bytes c ?pre\<rparr>"
      using bl(1) unfolding e1 .
    show "map_option desc_mem (task_desc ?task') =
            Some (write_bytes
                   (unat (of_nat (sizeof_dla_task_descriptor c + sizeof_dla_action_list c
                                   + sizeof_dla_action_list c + nvdla_get_max_preaction_size c) :: u16))
                   (cells_bytes c ?post)
                   (write_bytes
                      (unat (of_nat (sizeof_dla_task_descriptor c + sizeof_dla_action_list c
                                      + sizeof_dla_action_list c) :: u16))
                      (cells_bytes c ?pre) (desc_mem va)))"
      using bl(3) unfolding e1 e2 .
    show "sizeof_dla_task_descriptor c + sizeof_dla_action_list c + sizeof_dla_action_list c
            + nvdla_get_max_preaction_size c < 2 ^ 16"
      using fits(2) by simp
    show "sizeof_dla_task_descriptor c + sizeof_dla_action_list c + sizeof_dla_action_list c
            + cursor_bytes c ?pre
          \<le> sizeof_dla_task_descriptor c + sizeof_dla_action_list c + sizeof_dla_action_list c
            + nvdla_get_max_preaction_size c"
      using room by simp
  qed
  show "map_option (\<lambda>d. encoded_list d (postaction_list d)) (task_desc ?task') =
          Some (map Some (cells_bytes c ?post))"
  proof (rule read_post_list)
    show "map_option postaction_list (task_desc ?task') =
            Some \<lparr>al_offset = of_nat (sizeof_dla_task_descriptor c + sizeof_dla_action_list c
                                     + sizeof_dla_action_list c + nvdla_get_max_preaction_size c),
                  al_size = cursor_bytes c ?post\<rparr>"
      using bl(2) unfolding e2 .
    show "map_option desc_mem (task_desc ?task') =
            Some (write_bytes
                   (unat (of_nat (sizeof_dla_task_descriptor c + sizeof_dla_action_list c
                                   + sizeof_dla_action_list c + nvdla_get_max_preaction_size c) :: u16))
                   (cells_bytes c ?post)
                   (write_bytes
                      (unat (of_nat (sizeof_dla_task_descriptor c + sizeof_dla_action_list c
                                      + sizeof_dla_action_list c) :: u16))
                      (cells_bytes c ?pre) (desc_mem va)))"
      using bl(3) unfolding e1 e2 .
  qed
  show "postfences ?task' = postfences task"
    by (rule bl(4))
qed

text \<open>
  C7 (amended). For a task built with one counter-wait pre-fence, one counter-signal
  post-fence and no status entries, whose counts are within the configured maxima and
  whose descriptor layout lies within 16-bit offsets, the bytes of the pre-action list
  are those of one semaphore-wait record on the fence's syncpoint and threshold followed
  by a terminate record, and the bytes of the post-action list those of one
  semaphore-signal record on the queue's syncpoint with value 0 followed by a terminate
  record. Submit leaves the descriptor as built, value 0 included. When the notifier
  registration succeeds, submit writes the queue's syncpoint id and the new fence target
  into the task's first post-fence entry, \<^verbatim>\<open>postfences[0].syncpoint_index\<close> and
  \<^verbatim>\<open>postfences[0].syncpoint_value\<close>, and changes no other entry; when the registration
  fails, submit writes nothing to the post-fence entries.
\<close>

theorem syncpt_fence_actions:
  assumes build: "fst (nvdla_fill_task_desc c e s task) = None"
    and pre: "take (num_prefences task) (prefences task) = [f]"
             "type f = NVDLA_FENCE_TYPE_SYNCPT"
    and post: "take (num_postfences task) (postfences task) = [g]"
              "type g = NVDLA_FENCE_TYPE_SYNCPT"
    and nost: "num_in_task_status task = 0" "num_out_task_status task = 0"
    and fits: "num_prefences task \<le> MAX_NUM_NVDLA_PREFENCES c"
              "sizeof_dla_task_descriptor c + 2 * sizeof_dla_action_list c
                 + nvdla_get_max_preaction_size c < 2 ^ 16"
    and sub: "submit_links e2 s2"
  shows "map_option (\<lambda>d. encoded_list d (preaction_list d))
           (task_desc (snd (snd (nvdla_fill_task_desc c e s task)))) =
           Some (map Some (cells_bytes c
                  [dla_action_opcode PREACTION_SEM_GE,
                   dla_action_semaphore (nvhost_syncpt_address_ret e (syncpoint_index f))
                     (syncpoint_value f),
                   dla_action_opcode PREACTION_TERMINATE])) \<and>
         map_option (\<lambda>d. encoded_list d (postaction_list d))
           (task_desc (snd (snd (nvdla_fill_task_desc c e s task)))) =
           Some (map Some (cells_bytes c
                  [dla_action_opcode POSTACTION_SEM,
                   dla_action_semaphore (nvhost_syncpt_address_ret e (syncpt_id (queue s))) 0,
                   dla_action_opcode POSTACTION_TERMINATE])) \<and>
         task_desc (last (tasklist (queue (snd (nvdla_queue_submit e2 s2
                      (snd (snd (nvdla_fill_task_desc c e s task)))))))) =
           task_desc (snd (snd (nvdla_fill_task_desc c e s task))) \<and>
         fence (last (tasklist (queue (snd (nvdla_queue_submit e2 s2
                      (snd (snd (nvdla_fill_task_desc c e s task)))))))) = max_val (sp s2) + 1 \<and>
         (nvhost_intr_register_notifier_ret e2 = None \<longrightarrow>
            postfences (last (tasklist (queue (snd (nvdla_queue_submit e2 s2
                      (snd (snd (nvdla_fill_task_desc c e s task)))))))) =
              (hd (postfences task))\<lparr>syncpoint_index := syncpt_id (queue s2),
                                     syncpoint_value := max_val (sp s2) + 1\<rparr>
                # tl (postfences task)) \<and>
         (nvhost_intr_register_notifier_ret e2 \<noteq> None \<longrightarrow>
            postfences (last (tasklist (queue (snd (nvdla_queue_submit e2 s2
                      (snd (snd (nvdla_fill_task_desc c e s task)))))))) = postfences task)"
proof -
  let ?T = "snd (snd (nvdla_fill_task_desc c e s task))"
  let ?t = "last (tasklist (queue (snd (nvdla_queue_submit e2 s2 ?T))))"
  note bl = syncpt_lists_built[OF build pre post nost fits]
  have ne: "postfences task \<noteq> []"
    using post(1) by auto
  have t: "task_desc ?t = task_desc ?T \<and> fence ?t = max_val (sp s2) + 1 \<and>
           (nvhost_intr_register_notifier_ret e2 = None \<longrightarrow>
              postfences ?t = (hd (postfences task))\<lparr>syncpoint_index := syncpt_id (queue s2),
                                     syncpoint_value := max_val (sp s2) + 1\<rparr>
                # tl (postfences task)) \<and>
           (nvhost_intr_register_notifier_ret e2 \<noteq> None \<longrightarrow> postfences ?t = postfences task)"
  proof (cases "nvhost_intr_register_notifier_ret e2")
    case None
    show ?thesis
      using ne None bl(3)
      by (cases "postfences task")
         (simp_all add: submit_tail_registered[OF sub None] write_postfence0_def)
  next
    case (Some err)
    show ?thesis
      using Some bl(3) by (simp add: submit_tail_unregistered[OF sub Some])
  qed
  show ?thesis
    using bl(1,2) t by simp
qed

lemma fence_task_hyps:
  "fst (nvdla_fill_task_desc example_config env_ok (sys [] 0 4) fence_task) = None"
  "take (num_prefences fence_task) (prefences fence_task) =
     [zero_fence\<lparr>syncpoint_index := 3, syncpoint_value := 10\<rparr>]"
  "type (zero_fence\<lparr>syncpoint_index := 3, syncpoint_value := 10\<rparr>) = NVDLA_FENCE_TYPE_SYNCPT"
  "take (num_postfences fence_task) (postfences fence_task) = [zero_fence]"
  "type zero_fence = NVDLA_FENCE_TYPE_SYNCPT"
  "num_in_task_status fence_task = 0"
  "num_out_task_status fence_task = 0"
  "num_prefences fence_task \<le> MAX_NUM_NVDLA_PREFENCES example_config"
  "sizeof_dla_task_descriptor example_config + 2 * sizeof_dla_action_list example_config
     + nvdla_get_max_preaction_size example_config < 2 ^ 16"
proof -
  show "fst (nvdla_fill_task_desc example_config env_ok (sys [] 0 4) fence_task) = None"
    by (rule fill_task_desc_no_addresses[where va = zero_desc and pa = 65536 and idx = 1])
       (simp_all add: env_ok_def fence_task_def built_task_def)
qed (simp_all add: fence_task_def built_task_def zero_fence_def example_config_def
       nvdla_get_max_preaction_size_def)

lemma example_simps:
  "nvhost_syncpt_address_ret env_ok i = ucast i * 4096"
  "syncpt_id (queue (sys ts lo hi)) = 9"
  "max_val (sp (sys ts lo hi)) = hi"
  "min_val (sp (sys ts lo hi)) = lo"
  "tasklist (queue (sys ts lo hi)) = ts"
  "trace (sys ts lo hi) = []"
  "nvhost_intr_register_notifier_ret env_ok = None"
  by (simp_all add: env_ok_def sys_def)

lemma submit_links_empty:
  "submit_links env_ok (sys [] lo hi)"
  "submit_links (env_ok\<lparr>nvhost_intr_register_notifier_ret := Some ENOMEM\<rparr>) (sys [] lo hi)"
  by (simp_all add: submit_links_def sys_def env_ok_def)

theorem syncpt_fence_actions_witness:
  "fst (nvdla_fill_task_desc example_config env_ok (sys [] 0 4) fence_task) = None \<and>
   take (num_prefences fence_task) (prefences fence_task) =
     [zero_fence\<lparr>syncpoint_index := 3, syncpoint_value := 10\<rparr>] \<and>
   take (num_postfences fence_task) (postfences fence_task) = [zero_fence] \<and>
   num_prefences fence_task \<le> MAX_NUM_NVDLA_PREFENCES example_config \<and>
   sizeof_dla_task_descriptor example_config + 2 * sizeof_dla_action_list example_config
     + nvdla_get_max_preaction_size example_config < 2 ^ 16 \<and>
   submit_links env_ok (sys [] 0 4) \<and>
   submit_links (env_ok\<lparr>nvhost_intr_register_notifier_ret := Some ENOMEM\<rparr>) (sys [] 0 4) \<and>
   map_option (\<lambda>d. encoded_list d (preaction_list d))
     (task_desc (snd (snd (nvdla_fill_task_desc example_config env_ok (sys [] 0 4) fence_task)))) =
     Some (map Some (cells_bytes example_config
       [dla_action_opcode PREACTION_SEM_GE, dla_action_semaphore 12288 10,
        dla_action_opcode PREACTION_TERMINATE])) \<and>
   map_option (\<lambda>d. encoded_list d (postaction_list d))
     (task_desc (snd (snd (nvdla_fill_task_desc example_config env_ok (sys [] 0 4) fence_task)))) =
     Some (map Some (cells_bytes example_config
       [dla_action_opcode POSTACTION_SEM, dla_action_semaphore 36864 0,
        dla_action_opcode POSTACTION_TERMINATE])) \<and>
   postfences (last (tasklist (queue (snd (nvdla_queue_submit env_ok (sys [] 0 4)
       (snd (snd (nvdla_fill_task_desc example_config env_ok (sys [] 0 4) fence_task)))))))) =
     [zero_fence\<lparr>syncpoint_index := 9, syncpoint_value := 5\<rparr>] \<and>
   postfences (last (tasklist (queue (snd (nvdla_queue_submit
       (env_ok\<lparr>nvhost_intr_register_notifier_ret := Some ENOMEM\<rparr>) (sys [] 0 4)
       (snd (snd (nvdla_fill_task_desc example_config env_ok (sys [] 0 4) fence_task)))))))) =
     [zero_fence]"
  using fence_task_hyps submit_links_empty [of 0 4]
    syncpt_fence_actions [OF fence_task_hyps submit_links_empty(1) [of 0 4]]
    syncpt_fence_actions [OF fence_task_hyps submit_links_empty(2) [of 0 4]]
  by (simp add: example_simps fence_task_def built_task_def)

text \<open>
  C7 as stated fails in its last clause: after the submit the task's fence target is 5
  and the value field of its signal record is still 0.
\<close>

theorem signal_value_not_written_by_submit:
  "map_option (\<lambda>d. encoded_list d (postaction_list d))
     (task_desc (last (tasklist (queue (snd (nvdla_queue_submit env_ok (sys [] 0 4)
       (snd (snd (nvdla_fill_task_desc example_config env_ok (sys [] 0 4) fence_task))))))))) =
     Some (map Some (cells_bytes example_config
       [dla_action_opcode POSTACTION_SEM, dla_action_semaphore 36864 0,
        dla_action_opcode POSTACTION_TERMINATE])) \<and>
   fence (last (tasklist (queue (snd (nvdla_queue_submit env_ok (sys [] 0 4)
       (snd (snd (nvdla_fill_task_desc example_config env_ok (sys [] 0 4) fence_task)))))))) = 5 \<and>
   (0 :: u32) \<noteq> 5"
  using syncpt_lists_built(2)[OF fence_task_hyps]
  by (simp add: submit_tail_registered[OF submit_links_empty(1) example_simps(7)] example_simps)

subsection \<open>Unknown fence kinds and the size of the lists\<close>

lemma alloc_env_ok: "nvhost_queue_alloc_task_memory_ret env_ok = Inr (zero_desc, 65536, 1)"
  by (simp add: env_ok_def)

text \<open>
  C2 says that a fence of an unrecognised kind makes the build return \<^verbatim>\<open>-EINVAL\<close>. The
  code computes that error and drops it: for a task whose pre-fence has kind 99,
  \<^verbatim>\<open>nvdla_fill_preactions\<close> returns \<^verbatim>\<open>-EINVAL\<close> and \<^verbatim>\<open>nvdla_fill_task_desc\<close>, which
  does not look at the value, returns success.
\<close>

theorem invalid_fence_kind_build_succeeds:
  "type (hd (prefences bad_fence_task)) = NVDLA_FENCE_TYPE_OTHER 99 \<and>
   fst (nvdla_fill_preactions example_config env_ok (bump_sequence (queue (sys [] 0 0)))
          (built_input example_config (sys [] 0 0) bad_fence_task zero_desc 65536 1)
          [call_nvhost_queue_alloc_task_memory]) = Some EINVAL \<and>
   fst (nvdla_fill_task_desc example_config env_ok (sys [] 0 0) bad_fence_task) = None"
proof -
  have n: "num_addresses bad_fence_task = 0"
    by (simp add: bad_fence_task_def built_task_def)
  have b: "fst (nvdla_fill_task_desc example_config env_ok (sys [] 0 0) bad_fence_task) = None"
    by (rule fill_task_desc_no_addresses[OF alloc_env_ok n])
  have p: "fill_prefences env_ok
             (take (num_prefences (built_input example_config (sys [] 0 0) bad_fence_task zero_desc 65536 1))
                (prefences (built_input example_config (sys [] 0 0) bad_fence_task zero_desc 65536 1)))
             ([], [call_nvhost_queue_alloc_task_memory]) =
           (Some EINVAL, [], [call_nvhost_queue_alloc_task_memory])"
    by (simp add: bad_fence_task_def built_task_def zero_fence_def)
  have "fst (nvdla_fill_preactions example_config env_ok (bump_sequence (queue (sys [] 0 0)))
          (built_input example_config (sys [] 0 0) bad_fence_task zero_desc 65536 1)
          [call_nvhost_queue_alloc_task_memory]) = Some EINVAL"
    by (subst fill_preactions_err[OF _ p]) simp_all
  with b show ?thesis
    by (simp add: bad_fence_task_def built_task_def zero_fence_def)
qed

lemma fill_sync_pts_bytes:
  "list_all (\<lambda>(i, t). i \<noteq> 0 \<and> nvhost_syncpt_is_valid_hw_pt_ret e i) pts \<Longrightarrow>
   cursor_bytes c (fill_sync_pts e pts nxt) =
     cursor_bytes c nxt
       + length pts * (sizeof_dla_action_opcode c + sizeof_dla_action_semaphore c)"
proof (induction pts arbitrary: nxt)
  case Nil
  show ?case by simp
next
  case (Cons p pts)
  obtain i t where p: "p = (i, t)" by (cases p)
  with Cons.prems have v: "i \<noteq> 0" "nvhost_syncpt_is_valid_hw_pt_ret e i"
    and r: "list_all (\<lambda>(i, t). i \<noteq> 0 \<and> nvhost_syncpt_is_valid_hw_pt_ret e i) pts"
    by simp_all
  show ?case
    unfolding p using v
    by (simp add: Cons.IH[OF r] add_fence_action_def add_opcode_def algebra_simps)
qed

text \<open>
  C8 says that the recorded length of a list never exceeds the worst-case size reserved
  for it. The worst case counts one wait per pre-fence, and a sync fd is expanded to one
  wait per point: with maxima of 4 and packed sizes 1, 12 and 10, one sync-fd pre-fence
  of eight points records a pre-action list of 105 bytes against 97 reserved.
\<close>

theorem sync_fd_list_exceeds_reserved_size:
  "num_prefences sync_fd_task \<le> MAX_NUM_NVDLA_PREFENCES example_config \<and>
   num_in_task_status sync_fd_task \<le> MAX_NUM_NVDLA_IN_TASK_STATUS example_config \<and>
   fst (nvdla_fill_task_desc example_config env_sync_fd (sys [] 0 0) sync_fd_task) = None \<and>
   map_option (al_size \<circ> preaction_list)
     (task_desc (snd (snd (nvdla_fill_task_desc example_config env_sync_fd (sys [] 0 0)
                             sync_fd_task)))) = Some 105 \<and>
   nvdla_get_max_preaction_size example_config = 97"
proof -
  let ?r = "nvdla_fill_task_desc example_config env_sync_fd (sys [] 0 0) sync_fd_task"
  let ?tr = "trace (sys [] 0 0) @ [call_nvhost_queue_alloc_task_memory]"
  let ?pts = "[(3, 1), (3, 2), (3, 3), (3, 4), (3, 5), (3, 6), (3, 7), (3, 8)] :: (u32 \<times> u32) list"
  have alloc: "nvhost_queue_alloc_task_memory_ret env_sync_fd = Inr (zero_desc, 65536, 1)"
    by (simp add: env_sync_fd_def env_ok_def)
  have n: "num_addresses sync_fd_task = 0"
    by (simp add: sync_fd_task_def built_task_def)
  have ok: "fst ?r = None"
    by (rule fill_task_desc_no_addresses[OF alloc n])
  have p: "fill_prefences env_sync_fd (take (num_prefences sync_fd_task) (prefences sync_fd_task))
             ([], ?tr) = (None, fill_sync_pts env_sync_fd ?pts [], ?tr)"
    by (simp add: sync_fd_task_def built_task_def zero_fence_def env_sync_fd_def
        del: fill_sync_pts.simps)
  have i: "fill_task_status env_sync_fd PREACTION_TASK_STATUS
             (take (num_in_task_status sync_fd_task) (in_task_status sync_fd_task))
             (fill_sync_pts env_sync_fd ?pts [], ?tr) = (fill_sync_pts env_sync_fd ?pts [], ?tr)"
    by (simp add: sync_fd_task_def built_task_def del: fill_sync_pts.simps)
  obtain nxt3 tr3 where
    o: "fill_postfences env_sync_fd (syncpt_id (queue (sys [] 0 0)))
          (take (num_postfences sync_fd_task) (postfences sync_fd_task)) ([], ?tr)
          = (None, nxt3, tr3)"
    by (simp add: sync_fd_task_def built_task_def zero_fence_def)
  have u: "fill_task_status env_sync_fd POSTACTION_TASK_STATUS
          (take (num_out_task_status sync_fd_task) (out_task_status sync_fd_task)) (nxt3, tr3)
          = (nxt3, tr3)"
    by (simp add: sync_fd_task_def built_task_def)
  have v: "list_all (\<lambda>(i, t). i \<noteq> 0 \<and> nvhost_syncpt_is_valid_hw_pt_ret env_sync_fd i) ?pts"
    by (simp add: env_sync_fd_def env_ok_def)
  have sz: "cursor_bytes example_config
              (add_opcode (fill_sync_pts env_sync_fd ?pts []) PREACTION_TERMINATE) = 105"
    by (simp add: add_opcode_def fill_sync_pts_bytes[OF v] example_config_def
        del: fill_sync_pts.simps)
  have m: "nvdla_get_max_preaction_size example_config = 97"
    by (simp add: nvdla_get_max_preaction_size_def example_config_def)
  have c: "num_prefences sync_fd_task \<le> MAX_NUM_NVDLA_PREFENCES example_config"
    "num_in_task_status sync_fd_task \<le> MAX_NUM_NVDLA_IN_TASK_STATUS example_config"
    by (simp_all add: sync_fd_task_def built_task_def example_config_def)
  have "map_option (al_size \<circ> preaction_list) (task_desc (snd (snd ?r))) =
          map_option al_size (map_option preaction_list (task_desc (snd (snd ?r))))"
    by (simp only: option.map_comp)
  also have "\<dots> = Some 105"
    by (simp only: built_lists(1)[OF alloc ok p i o u] sz) simp
  finally show ?thesis
    using m c ok by simp
qed

subsection \<open>Pin failures while filling\<close>

lemma prefence_pin_failure:
  "pin_ret e (sem_handle f) = Inl err \<Longrightarrow> type f = NVDLA_FENCE_TYPE_SEMAPHORE \<Longrightarrow>
   fill_prefences e (f # fs) (nxt, tr) =
     fill_prefences e fs (nxt, tr @ [call_nvhost_buffer_submit_pin [sem_handle f]])"
  by simp

lemma postfence_pin_failure:
  "pin_ret e (sem_handle f) = Inl err \<Longrightarrow>
   type f = NVDLA_FENCE_TYPE_SEMAPHORE \<or> type f = NVDLA_FENCE_TYPE_TS_SEMAPHORE \<Longrightarrow>
   fill_postfences e sid (f # fs) (nxt, tr) =
     fill_postfences e sid fs (nxt, tr @ [call_nvhost_buffer_submit_pin [sem_handle f]])"
  by auto

lemma status_pin_failure:
  "pin_ret e (handle n) = Inl err \<Longrightarrow>
   fill_task_status e op (n # ns) (nxt, tr) =
     (nxt, tr @ [call_nvhost_buffer_submit_pin [handle n]])"
  by simp

lemma env_pin_fails_simps:
  "pin_ret env_pin_fails h = (if h = 6 then Inl ENOMEM else Inr (ucast h * 4096))"
  "nvhost_queue_alloc_task_memory_ret env_pin_fails = Inr (zero_desc, 65536, 1)"
  "nvhost_syncpt_address_ret env_pin_fails i = ucast i * 4096"
  by (simp_all add: env_pin_fails_def env_ok_def)

lemma flaky_task_simps:
  "num_addresses flaky_task = 0"
  "take (num_prefences flaky_task) (prefences flaky_task) =
     [sem_fence NVDLA_FENCE_TYPE_SEMAPHORE 6, sem_fence NVDLA_FENCE_TYPE_SEMAPHORE 8]"
  "take (num_postfences flaky_task) (postfences flaky_task) = [zero_fence]"
  "take (num_in_task_status flaky_task) (in_task_status flaky_task) =
     [status_entry 6, status_entry 8]"
  "take (num_out_task_status flaky_task) (out_task_status flaky_task) = []"
  by (simp_all add: flaky_task_def built_task_def)

lemma flaky_build:
  "fst (nvdla_fill_task_desc example_config env_pin_fails (sys [] 0 0) flaky_task) = None"
  "map_option (\<lambda>d. encoded_list d (preaction_list d))
     (task_desc (snd (snd (nvdla_fill_task_desc example_config env_pin_fails (sys [] 0 0) flaky_task)))) =
     Some (map Some (cells_bytes example_config
       [dla_action_opcode PREACTION_SEM_GE, dla_action_semaphore 32776 3,
        dla_action_opcode PREACTION_TERMINATE]))"
proof -
  let ?r = "nvdla_fill_task_desc example_config env_pin_fails (sys [] 0 0) flaky_task"
  let ?tr = "trace (sys [] 0 0) @ [call_nvhost_queue_alloc_task_memory]"
  let ?pre = "[dla_action_opcode PREACTION_SEM_GE, dla_action_semaphore 32776 3,
               dla_action_opcode PREACTION_TERMINATE]"
  show ok: "fst ?r = None"
    by (rule fill_task_desc_no_addresses[OF env_pin_fails_simps(2) flaky_task_simps(1)])
  have p: "fill_prefences env_pin_fails (take (num_prefences flaky_task) (prefences flaky_task))
             ([], ?tr) =
           (None, [dla_action_opcode PREACTION_SEM_GE, dla_action_semaphore 32776 3],
            ?tr @ [call_nvhost_buffer_submit_pin [6], call_nvhost_buffer_submit_pin [8]])"
    by (simp add: flaky_task_simps env_pin_fails_simps sem_fence_def zero_fence_def
        add_fence_action_def add_opcode_def)
  have i: "fill_task_status env_pin_fails PREACTION_TASK_STATUS
             (take (num_in_task_status flaky_task) (in_task_status flaky_task))
             ([dla_action_opcode PREACTION_SEM_GE, dla_action_semaphore 32776 3],
              ?tr @ [call_nvhost_buffer_submit_pin [6], call_nvhost_buffer_submit_pin [8]]) =
           ([dla_action_opcode PREACTION_SEM_GE, dla_action_semaphore 32776 3],
            ?tr @ [call_nvhost_buffer_submit_pin [6], call_nvhost_buffer_submit_pin [8],
                   call_nvhost_buffer_submit_pin [6]])"
    by (simp add: flaky_task_simps env_pin_fails_simps status_entry_def)
  obtain nxt3 tr3 where
    o: "fill_postfences env_pin_fails (syncpt_id (queue (sys [] 0 0)))
          (take (num_postfences flaky_task) (postfences flaky_task))
          ([], ?tr @ [call_nvhost_buffer_submit_pin [6], call_nvhost_buffer_submit_pin [8],
                   call_nvhost_buffer_submit_pin [6]]) = (None, nxt3, tr3)"
    by (simp add: flaky_task_simps zero_fence_def)
  have u: "fill_task_status env_pin_fails POSTACTION_TASK_STATUS
          (take (num_out_task_status flaky_task) (out_task_status flaky_task)) (nxt3, tr3)
          = (nxt3, tr3)"
    by (simp add: flaky_task_simps)
  note bl = built_lists[OF env_pin_fails_simps(2) ok p i o u]
  have e1: "add_opcode [dla_action_opcode PREACTION_SEM_GE, dla_action_semaphore 32776 3]
              PREACTION_TERMINATE = ?pre"
    by (simp add: add_opcode_def)
  show "map_option (\<lambda>d. encoded_list d (preaction_list d)) (task_desc (snd (snd ?r))) =
          Some (map Some (cells_bytes example_config ?pre))"
  proof (rule read_pre_list)
    show "map_option preaction_list (task_desc (snd (snd ?r))) =
            Some \<lparr>al_offset = of_nat (sizeof_dla_task_descriptor example_config
                                     + sizeof_dla_action_list example_config
                                     + sizeof_dla_action_list example_config),
                  al_size = cursor_bytes example_config ?pre\<rparr>"
      using bl(1) unfolding e1 .
    show "map_option desc_mem (task_desc (snd (snd ?r))) =
            Some (write_bytes
                   (unat (of_nat (sizeof_dla_task_descriptor example_config
                                   + sizeof_dla_action_list example_config
                                   + sizeof_dla_action_list example_config
                                   + nvdla_get_max_preaction_size example_config) :: u16))
                   (cells_bytes example_config (add_opcode nxt3 POSTACTION_TERMINATE))
                   (write_bytes
                      (unat (of_nat (sizeof_dla_task_descriptor example_config
                                      + sizeof_dla_action_list example_config
                                      + sizeof_dla_action_list example_config) :: u16))
                      (cells_bytes example_config ?pre) (desc_mem zero_desc)))"
      using bl(3) unfolding e1 .
    show "sizeof_dla_task_descriptor example_config + sizeof_dla_action_list example_config
            + sizeof_dla_action_list example_config
            + nvdla_get_max_preaction_size example_config < 2 ^ 16"
      by (simp add: example_config_def nvdla_get_max_preaction_size_def)
    show "sizeof_dla_task_descriptor example_config + sizeof_dla_action_list example_config
            + sizeof_dla_action_list example_config + cursor_bytes example_config ?pre
          \<le> sizeof_dla_task_descriptor example_config + sizeof_dla_action_list example_config
            + sizeof_dla_action_list example_config
            + nvdla_get_max_preaction_size example_config"
      by (simp add: example_config_def nvdla_get_max_preaction_size_def)
  qed
qed

text \<open>
  C9 says that after a failed pin the entry's action is skipped and the fill loop goes
  on with the remaining entries. The fence loops do so: the \<^verbatim>\<open>break\<close> after the failed
  pin leaves the \<^verbatim>\<open>switch\<close>, and the second fence, on handle 8, is pinned and encoded.
  The status loops have no \<^verbatim>\<open>switch\<close>: the same \<^verbatim>\<open>break\<close> leaves the \<^verbatim>\<open>for\<close> loop, so
  after the failed pin of the first input status entry the second one, whose handle 8
  pins, is neither pinned nor encoded. The build returns success, and the pre-action
  list holds the wait of the second fence and the terminate record only.
\<close>

theorem status_pin_failure_ends_loop:
  "pin_ret env_pin_fails 6 = Inl ENOMEM \<and>
   pin_ret env_pin_fails 8 = Inr 32768 \<and>
   fill_prefences env_pin_fails
     [sem_fence NVDLA_FENCE_TYPE_SEMAPHORE 6, sem_fence NVDLA_FENCE_TYPE_SEMAPHORE 8] ([], []) =
     (None, [dla_action_opcode PREACTION_SEM_GE, dla_action_semaphore 32776 3],
      [call_nvhost_buffer_submit_pin [6], call_nvhost_buffer_submit_pin [8]]) \<and>
   fill_task_status env_pin_fails PREACTION_TASK_STATUS [status_entry 6, status_entry 8] ([], []) =
     ([], [call_nvhost_buffer_submit_pin [6]]) \<and>
   take (num_prefences flaky_task) (prefences flaky_task) =
     [sem_fence NVDLA_FENCE_TYPE_SEMAPHORE 6, sem_fence NVDLA_FENCE_TYPE_SEMAPHORE 8] \<and>
   take (num_in_task_status flaky_task) (in_task_status flaky_task) =
     [status_entry 6, status_entry 8] \<and>
   fst (nvdla_fill_task_desc example_config env_pin_fails (sys [] 0 0) flaky_task) = None \<and>
   map_option (\<lambda>d. encoded_list d (preaction_list d))
     (task_desc (snd (snd (nvdla_fill_task_desc example_config env_pin_fails (sys [] 0 0) flaky_task)))) =
     Some (map Some (cells_bytes example_config
       [dla_action_opcode PREACTION_SEM_GE, dla_action_semaphore 32776 3,
        dla_action_opcode PREACTION_TERMINATE]))"
proof -
  have f: "fill_prefences env_pin_fails
     [sem_fence NVDLA_FENCE_TYPE_SEMAPHORE 6, sem_fence NVDLA_FENCE_TYPE_SEMAPHORE 8] ([], []) =
     (None, [dla_action_opcode PREACTION_SEM_GE, dla_action_semaphore 32776 3],
      [call_nvhost_buffer_submit_pin [6], call_nvhost_buffer_submit_pin [8]])"
    by (simp add: env_pin_fails_simps sem_fence_def zero_fence_def
        add_fence_action_def add_opcode_def)
  have t: "fill_task_status env_pin_fails PREACTION_TASK_STATUS
             [status_entry 6, status_entry 8] ([], []) = ([], [call_nvhost_buffer_submit_pin [6]])"
    by (simp add: env_pin_fails_simps status_entry_def)
  show ?thesis
    using f t flaky_build
    by (simp add: flaky_task_simps env_pin_fails_simps
        del: fill_prefences.simps fill_task_status.simps)
qed

end
